theory Spec2Isabelle
  imports Main "HOL-Library.Word"
begin

unbundle bit_operations_syntax

section \<open>easy-fs-extracter: the image decoder of \<^verbatim>\<open>main.py\<close>\<close>

text \<open>
  The disk image is the content of the opened file: a list of bytes. Python's \<^verbatim>\<open>bytes\<close>
  are lists of 8-bit words, Python's unbounded integers (block indices, sizes, offsets)
  are natural numbers (every integer of the program is unpacked from an unsigned field or
  computed from such values by \<open>+\<close> and \<open>*\<close>), and a Python \<^verbatim>\<open>str\<close> is its list of
  Unicode code points.
\<close>

type_synonym byte = "8 word"
type_synonym bytes = "byte list"
type_synonym str = "nat list"

definition BLOCK_SIZE :: nat where
  "BLOCK_SIZE = 512"

definition DISK_INODE_SIZE :: nat where
  "DISK_INODE_SIZE = 128"

definition DIR_ENTRY_SIZE :: nat where
  "DIR_ENTRY_SIZE = 32"

definition MAGIC_NUMBER :: nat where
  "MAGIC_NUMBER = 0x3B800001"

text \<open>
  The exceptions of a run, none of which the program catches: \<^verbatim>\<open>struct.error\<close> (a buffer
  whose length is not the length of the format), \<^verbatim>\<open>UnicodeDecodeError\<close>
  (\<^verbatim>\<open>bytes.decode\<close>), \<^verbatim>\<open>RecursionError\<close> (the interpreter's bound on the depth of nested
  calls), and the two that the host raises on a path built from the names of the image:
  \<^verbatim>\<open>OSError\<close> (\<^verbatim>\<open>os.mkdir\<close> and \<^verbatim>\<open>open\<close>: a missing parent, a path that is a
  directory, ...) and rich's \<^verbatim>\<open>MarkupError\<close> (\<^verbatim>\<open>print\<close> of a path that holds markup).
\<close>

datatype error = StructError | UnicodeDecodeError | RecursionError | OSError | MarkupError

record Inode =
  file_type :: nat
  inode_size :: nat
  direct :: "nat list"
  indirect1 :: nat
  indirect2 :: nat
  indirect3 :: nat

subsection \<open>Reading the image\<close>

text \<open>
  \<^verbatim>\<open>image.seek(pos); image.read(n)\<close>: the bytes from \<open>pos\<close> on, at most \<open>n\<close> of them.
  Seeking past the end is no error, and a read near the end returns what is there.
\<close>

definition image_read :: "bytes \<Rightarrow> nat \<Rightarrow> nat \<Rightarrow> bytes" where
  "image_read img pos n = take n (drop pos img)"

subsection \<open>\<^verbatim>\<open>struct.unpack\<close> for the four formats\<close>

text \<open>A little-endian unsigned integer (format character \<^verbatim>\<open>I\<close> under \<^verbatim>\<open><\<close>).\<close>

fun le_uint :: "bytes \<Rightarrow> nat" where
  "le_uint [] = 0"
| "le_uint (b # bs) = unat b + 256 * le_uint bs"

text \<open>A run of \<^verbatim>\<open>I\<close> fields: consecutive groups of four bytes.\<close>

fun uint32s :: "bytes \<Rightarrow> nat list" where
  "uint32s (a # b # c # d # rest) = le_uint [a, b, c, d] # uint32s rest"
| "uint32s _ = []"

text \<open>\<^verbatim>\<open>struct.unpack("<128I", data)\<close>: raises unless \<open>data\<close> has exactly 512 bytes.\<close>

definition unpack_indirect_block :: "bytes \<Rightarrow> error + nat list" where
  "unpack_indirect_block data =
     (if length data \<noteq> 512 then Inl StructError else Inr (uint32s data))"

text \<open>
  \<^verbatim>\<open>struct.unpack("<B3xI27IIII", data)\<close>: one byte, three padding bytes, then 31
  integers; raises unless \<open>data\<close> has exactly 128 bytes.
\<close>

definition unpack_disk_inode :: "bytes \<Rightarrow> error + nat list" where
  "unpack_disk_inode data =
     (if length data \<noteq> 128 then Inl StructError
      else Inr (unat (hd data) # uint32s (drop 4 data)))"

text \<open>\<^verbatim>\<open>struct.unpack("<28sI", data)\<close>: raises unless \<open>data\<close> has exactly 32 bytes.\<close>

definition unpack_dir_entry :: "bytes \<Rightarrow> error + bytes \<times> nat" where
  "unpack_dir_entry data =
     (if length data \<noteq> 32 then Inl StructError
      else Inr (take 28 data, le_uint (drop 28 data)))"

text \<open>\<^verbatim>\<open>struct.unpack("<6I488x", data)\<close>: raises unless \<open>data\<close> has exactly 512 bytes.\<close>

definition unpack_super_block :: "bytes \<Rightarrow> error + nat list" where
  "unpack_super_block data =
     (if length data \<noteq> 512 then Inl StructError else Inr (uint32s (take 24 data)))"

subsection \<open>\<^verbatim>\<open>read_indirect_block\<close>\<close>

text \<open>
  The first argument bounds the depth of nested calls that the interpreter still allows:
  a call made when it is 0 raises \<^verbatim>\<open>RecursionError\<close>. \<open>level\<close> is a Python integer, and
  the test is \<^verbatim>\<open>level == 1\<close>, so a level below 1 never reaches the base case.
  \<open>indirect_loop\<close> is the \<^verbatim>\<open>for index in indirect_block_indices\<close> loop, with the
  accumulator \<open>data\<close>.
\<close>

fun read_indirect_block :: "nat \<Rightarrow> bytes \<Rightarrow> nat \<Rightarrow> int \<Rightarrow> error + bytes"
  and indirect_loop :: "nat \<Rightarrow> bytes \<Rightarrow> int \<Rightarrow> nat list \<Rightarrow> bytes \<Rightarrow> error + bytes"
where
  "read_indirect_block 0 img indirect_block_index level = Inl RecursionError"
| "read_indirect_block (Suc n) img indirect_block_index level =
     (case unpack_indirect_block (image_read img (indirect_block_index * BLOCK_SIZE) BLOCK_SIZE) of
        Inl e \<Rightarrow> Inl e
      | Inr indirect_block_indices \<Rightarrow> indirect_loop n img level indirect_block_indices [])"
| "indirect_loop n img level [] data = Inr data"
| "indirect_loop n img level (index # indices) data =
     (if index = 0 then Inr data
      else if level = 1 then
        indirect_loop n img level indices (data @ image_read img (index * BLOCK_SIZE) BLOCK_SIZE)
      else
        (case read_indirect_block n img index (level - 1) of
           Inl e \<Rightarrow> Inl e
         | Inr sub \<Rightarrow> indirect_loop n img level indices (data @ sub)))"

subsection \<open>\<^verbatim>\<open>extract_inode_data\<close>\<close>

text \<open>The loop over \<^verbatim>\<open>inode.direct\<close>, with the accumulator \<open>data\<close>.\<close>

fun direct_loop :: "bytes \<Rightarrow> nat list \<Rightarrow> bytes \<Rightarrow> bytes" where
  "direct_loop img [] data = data"
| "direct_loop img (block_index # rest) data =
     (if block_index = 0 then data
      else direct_loop img rest (data @ image_read img (block_index * BLOCK_SIZE) BLOCK_SIZE))"

text \<open>\<^verbatim>\<open>if pointer != 0: data += read_indirect_block(image, pointer, level)\<close>\<close>

definition add_indirect :: "nat \<Rightarrow> bytes \<Rightarrow> nat \<Rightarrow> int \<Rightarrow> bytes \<Rightarrow> error + bytes" where
  "add_indirect n img pointer level data =
     (if pointer \<noteq> 0 then
        (case read_indirect_block n img pointer level of
           Inl e \<Rightarrow> Inl e
         | Inr sub \<Rightarrow> Inr (data @ sub))
      else Inr data)"

text \<open>The value of \<open>data\<close> before the final slice.\<close>

definition inode_blocks_data :: "nat \<Rightarrow> bytes \<Rightarrow> Inode \<Rightarrow> error + bytes" where
  "inode_blocks_data n img inode =
     (case add_indirect n img (indirect1 inode) 1 (direct_loop img (direct inode) []) of
        Inl e \<Rightarrow> Inl e
      | Inr d1 \<Rightarrow>
          (case add_indirect n img (indirect2 inode) 2 d1 of
             Inl e \<Rightarrow> Inl e
           | Inr d2 \<Rightarrow> add_indirect n img (indirect3 inode) 3 d2))"

text \<open>\<^verbatim>\<open>return data[: inode.size]\<close>\<close>

definition extract_inode_data :: "nat \<Rightarrow> bytes \<Rightarrow> Inode \<Rightarrow> error + bytes" where
  "extract_inode_data n img inode =
     (case inode_blocks_data n img inode of
        Inl e \<Rightarrow> Inl e
      | Inr data \<Rightarrow> Inr (take (inode_size inode) data))"

subsection \<open>Text: \<^verbatim>\<open>bytes.decode()\<close>, \<^verbatim>\<open>os.path.join\<close>, \<^verbatim>\<open>str(int)\<close>\<close>

text \<open>
  \<^verbatim>\<open>bytes.decode()\<close> is the strict UTF-8 decoder: it raises on a byte sequence that is not
  well-formed UTF-8 (a stray continuation byte, a truncated or overlong sequence, a
  surrogate, a value above U+10FFFF). The result is the list of code points.
\<close>

definition in_range :: "nat \<Rightarrow> nat \<Rightarrow> byte \<Rightarrow> bool" where
  "in_range lo hi b = (lo \<le> unat b \<and> unat b \<le> hi)"

definition second_lo :: "nat \<Rightarrow> nat" where
  "second_lo c = (if c = 0xE0 then 0xA0 else if c = 0xF0 then 0x90 else 0x80)"

definition second_hi :: "nat \<Rightarrow> nat" where
  "second_hi c = (if c = 0xED then 0x9F else if c = 0xF4 then 0x8F else 0xBF)"

definition cons_result :: "nat \<Rightarrow> error + str \<Rightarrow> error + str" where
  "cons_result cp r = (case r of Inl e \<Rightarrow> Inl e | Inr cps \<Rightarrow> Inr (cp # cps))"

fun utf8_decode :: "bytes \<Rightarrow> error + str" where
  "utf8_decode [] = Inr []"
| "utf8_decode (b # bs) =
     (let c = unat b in
      if c < 0x80 then cons_result c (utf8_decode bs)
      else if 0xC2 \<le> c \<and> c \<le> 0xDF then
        (case bs of
           b1 # r \<Rightarrow>
             if in_range 0x80 0xBF b1
             then cons_result ((c - 0xC0) * 64 + (unat b1 - 0x80)) (utf8_decode r)
             else Inl UnicodeDecodeError
         | _ \<Rightarrow> Inl UnicodeDecodeError)
      else if 0xE0 \<le> c \<and> c \<le> 0xEF then
        (case bs of
           b1 # b2 # r \<Rightarrow>
             if in_range (second_lo c) (second_hi c) b1 \<and> in_range 0x80 0xBF b2
             then cons_result ((c - 0xE0) * 4096 + (unat b1 - 0x80) * 64 + (unat b2 - 0x80))
                    (utf8_decode r)
             else Inl UnicodeDecodeError
         | _ \<Rightarrow> Inl UnicodeDecodeError)
      else if 0xF0 \<le> c \<and> c \<le> 0xF4 then
        (case bs of
           b1 # b2 # b3 # r \<Rightarrow>
             if in_range (second_lo c) (second_hi c) b1 \<and> in_range 0x80 0xBF b2
                \<and> in_range 0x80 0xBF b3
             then cons_result ((c - 0xF0) * 262144 + (unat b1 - 0x80) * 4096
                               + (unat b2 - 0x80) * 64 + (unat b3 - 0x80))
                    (utf8_decode r)
             else Inl UnicodeDecodeError
         | _ \<Rightarrow> Inl UnicodeDecodeError)
      else Inl UnicodeDecodeError)"

text \<open>
  Lines 96 to 100: unpack the entry, cut the name at the first null byte
  (\<^verbatim>\<open>name.split(b"\x00", 1)[0]\<close>: all of it when there is none) and decode it.
\<close>

definition decode_dir_entry :: "bytes \<Rightarrow> error + str \<times> nat" where
  "decode_dir_entry data =
     (case unpack_dir_entry data of
        Inl e \<Rightarrow> Inl e
      | Inr (name, child_inode_index) \<Rightarrow>
          (case utf8_decode (takeWhile (\<lambda>b. b \<noteq> 0) name) of
             Inl e \<Rightarrow> Inl e
           | Inr s \<Rightarrow> Inr (s, child_inode_index)))"

text \<open>\<^verbatim>\<open>os.path.join(a, b)\<close> on a POSIX host; 47 is the code point of the slash.\<close>

definition path_join :: "str \<Rightarrow> str \<Rightarrow> str" where
  "path_join a b =
     (if b \<noteq> [] \<and> hd b = 47 then b
      else if a = [] \<or> last a = 47 then a @ b
      else a @ [47] @ b)"

text \<open>\<^verbatim>\<open>str(n)\<close> for a non-negative integer: its decimal digits.\<close>

function decimal :: "nat \<Rightarrow> str" where
  "decimal n = (if n < 10 then [48 + n] else decimal (n div 10) @ [48 + n mod 10])"
  by pat_completeness auto
termination
  by (relation "measure id") auto

declare decimal.simps [simp del]

definition ascii :: "string \<Rightarrow> str" where
  "ascii s = map of_char s"

subsection \<open>The host: the file system and the console\<close>

text \<open>
  The program reaches the host through \<^verbatim>\<open>os.path.exists\<close>, \<^verbatim>\<open>os.mkdir\<close>,
  \<^verbatim>\<open>open(path, "wb")\<close> with \<^verbatim>\<open>write\<close>, and rich's \<^verbatim>\<open>print\<close>. They are no code of the
  program, and each of them can refuse a path that is built from the names of the image.
  So they are parameters: a host API is any behaviour of the four, over any type of file
  system states.
  \<^item> \<open>os_path_exists fs p\<close>: the answer of \<^verbatim>\<open>os.path.exists(p)\<close>;
  \<^item> \<open>os_mkdir fs p\<close>: the file system after \<^verbatim>\<open>os.mkdir(p)\<close>, or \<open>None\<close> when it raises
    (the parent is missing, the path exists, ...);
  \<^item> \<open>open_write fs p data\<close>: \<^verbatim>\<open>with open(p, "wb") as f: f.write(data)\<close>; whether it went
    through, and the file system it leaves (a write that raises may have made the file);
  \<^item> \<open>markup_error p\<close>: whether rich raises \<^verbatim>\<open>MarkupError\<close> on the text
    \<^verbatim>\<open>[green][+] Extracted file to p[/green]\<close>.
\<close>

record 'fs host_api =
  os_path_exists :: "'fs \<Rightarrow> str \<Rightarrow> bool"
  os_mkdir :: "'fs \<Rightarrow> str \<Rightarrow> 'fs option"
  open_write :: "'fs \<Rightarrow> str \<Rightarrow> bytes \<Rightarrow> bool \<times> 'fs"
  markup_error :: "str \<Rightarrow> bool"

datatype message =
    MsgExtracted str
  | MsgMagicMismatch nat nat
  | MsgSuperblockInfo
  | MsgMagicNumber nat
  | MsgTotalBlocks nat
  | MsgInodeBitmapBlocks nat
  | MsgInodeAreaBlocks nat
  | MsgDataBitmapBlocks nat
  | MsgDataAreaBlocks nat
  | MsgRestoring
  | MsgRestored
  | MsgExtractingAll
  | MsgAllExtracted

text \<open>The state of the host: its file system, and the messages printed so far.\<close>

record 'fs host =
  fs :: 'fs
  console :: "message list"

text \<open>
  \<^verbatim>\<open>print\<close> of one of the program's own templates, whose variable parts are integers:
  the markup is the program's and parses.
\<close>

definition print :: "'fs host \<Rightarrow> message \<Rightarrow> 'fs host" where
  "print h m = h\<lparr>console := console h @ [m]\<rparr>"

text \<open>\<^verbatim>\<open>print(f"[green][+] Extracted file to {path}[/green]")\<close>: the path is parsed as markup.\<close>

definition print_extracted :: "'fs host_api \<Rightarrow> 'fs host \<Rightarrow> str \<Rightarrow> error option \<times> 'fs host" where
  "print_extracted api h p =
     (if markup_error api p then (Some MarkupError, h) else (None, print h (MsgExtracted p)))"

text \<open>\<^verbatim>\<open>if not os.path.exists(p): os.mkdir(p)\<close>\<close>

definition ensure_dir :: "'fs host_api \<Rightarrow> 'fs host \<Rightarrow> str \<Rightarrow> error option \<times> 'fs host" where
  "ensure_dir api h p =
     (if \<not> os_path_exists api (fs h) p then
        (case os_mkdir api (fs h) p of
           None \<Rightarrow> (Some OSError, h)
         | Some fs' \<Rightarrow> (None, h\<lparr>fs := fs'\<rparr>))
      else (None, h))"

text \<open>
  Lines 104 to 106, and again 143 to 146: write the content to the path, then print the
  report.
\<close>

definition write_and_report ::
  "'fs host_api \<Rightarrow> 'fs host \<Rightarrow> str \<Rightarrow> bytes \<Rightarrow> error option \<times> 'fs host"
where
  "write_and_report api h p file_data =
     (case open_write api (fs h) p file_data of
        (False, fs') \<Rightarrow> (Some OSError, h\<lparr>fs := fs'\<rparr>)
      | (True, fs') \<Rightarrow> print_extracted api (h\<lparr>fs := fs'\<rparr>) p)"

subsection \<open>Reading an inode record\<close>

text \<open>
  Lines 78 to 89, and again 124 to 135: read 128 bytes at \<open>2 * 512 + 128 * inode_index\<close>,
  unpack them and build the \<open>Inode\<close>.
\<close>

definition read_inode :: "bytes \<Rightarrow> nat \<Rightarrow> error + Inode" where
  "read_inode img inode_index =
     (case unpack_disk_inode
             (image_read img (BLOCK_SIZE * 2 + DISK_INODE_SIZE * inode_index) DISK_INODE_SIZE) of
        Inl e \<Rightarrow> Inl e
      | Inr unpacked_data \<Rightarrow>
          Inr \<lparr>file_type = unpacked_data ! 0,
               inode_size = unpacked_data ! 1,
               direct = take 27 (drop 2 unpacked_data),
               indirect1 = unpacked_data ! 29,
               indirect2 = unpacked_data ! 30,
               indirect3 = unpacked_data ! 31\<rparr>)"

subsection \<open>\<^verbatim>\<open>extract_directory\<close>\<close>

text \<open>\<^verbatim>\<open>range(start, stop, step)\<close> for a positive step.\<close>

definition py_range :: "nat \<Rightarrow> nat \<Rightarrow> nat \<Rightarrow> nat list" where
  "py_range start stop step = map (\<lambda>k. start + k * step) [0..<(stop - start + step - 1) div step]"

text \<open>
  The walker returns the exception that ended it, if any, and the host as it left it:
  an exception undoes nothing. The second argument is the depth bound, as in
  \<open>read_indirect_block\<close>. \<open>dir_entries_loop\<close> is the \<^verbatim>\<open>for offset in range(...)\<close> loop.
\<close>

fun extract_directory ::
    "'fs host_api \<Rightarrow> nat \<Rightarrow> bytes \<Rightarrow> nat \<Rightarrow> str \<Rightarrow> 'fs host \<Rightarrow> error option \<times> 'fs host"
  and dir_entries_loop ::
    "'fs host_api \<Rightarrow> nat \<Rightarrow> bytes \<Rightarrow> bytes \<Rightarrow> str \<Rightarrow> nat list \<Rightarrow> 'fs host
       \<Rightarrow> error option \<times> 'fs host"
where
  "extract_directory api 0 img inode_index output_path h = (Some RecursionError, h)"
| "extract_directory api (Suc n) img inode_index output_path h =
     (case read_inode img inode_index of
        Inl e \<Rightarrow> (Some e, h)
      | Inr inode \<Rightarrow>
          if file_type inode = 1 then
            (case ensure_dir api h output_path of
               (Some e, h1) \<Rightarrow> (Some e, h1)
             | (None, h1) \<Rightarrow>
                 (case extract_inode_data n img inode of
                    Inl e \<Rightarrow> (Some e, h1)
                  | Inr directory_data \<Rightarrow>
                      dir_entries_loop api n img directory_data output_path
                        (py_range (DIR_ENTRY_SIZE * 2) (inode_size inode) DIR_ENTRY_SIZE) h1))
          else if file_type inode = 0 then
            (case extract_inode_data n img inode of
               Inl e \<Rightarrow> (Some e, h)
             | Inr file_data \<Rightarrow> write_and_report api h output_path file_data)
          else (None, h))"
| "dir_entries_loop api n img directory_data output_path [] h = (None, h)"
| "dir_entries_loop api n img directory_data output_path (offset # offsets) h =
     (case decode_dir_entry (take DIR_ENTRY_SIZE (drop offset directory_data)) of
        Inl e \<Rightarrow> (Some e, h)
      | Inr (name, child_inode_index) \<Rightarrow>
          (case extract_directory api n img child_inode_index (path_join output_path name) h of
             (Some e, h') \<Rightarrow> (Some e, h')
           | (None, h') \<Rightarrow> dir_entries_loop api n img directory_data output_path offsets h'))"

subsection \<open>\<^verbatim>\<open>extract_all_files\<close>\<close>

text \<open>The list comprehension of lines 113 to 118.\<close>

definition inode_indices :: "bytes \<Rightarrow> nat list" where
  "inode_indices inode_bitmap =
     concat (map (\<lambda>(index, byte).
                    map (\<lambda>bit. index * 8 + bit)
                        (filter (\<lambda>bit. byte AND push_bit bit 1 \<noteq> 0) [0..<8]))
                 (enumerate 0 inode_bitmap))"

text \<open>The \<^verbatim>\<open>for inode_index in track(inode_indices, ...)\<close> loop.\<close>

fun files_loop ::
  "'fs host_api \<Rightarrow> nat \<Rightarrow> bytes \<Rightarrow> str \<Rightarrow> nat list \<Rightarrow> 'fs host \<Rightarrow> error option \<times> 'fs host"
where
  "files_loop api n img output_dir [] h = (None, h)"
| "files_loop api n img output_dir (inode_index # rest) h =
     (case read_inode img inode_index of
        Inl e \<Rightarrow> (Some e, h)
      | Inr inode \<Rightarrow>
          if file_type inode = 1 then files_loop api n img output_dir rest h
          else
            (case extract_inode_data n img inode of
               Inl e \<Rightarrow> (Some e, h)
             | Inr file_data \<Rightarrow>
                 (case write_and_report api h
                         (path_join output_dir (ascii ''inode'' @ decimal inode_index))
                         file_data of
                    (Some e, h') \<Rightarrow> (Some e, h')
                  | (None, h') \<Rightarrow> files_loop api n img output_dir rest h')))"

definition extract_all_files ::
  "'fs host_api \<Rightarrow> nat \<Rightarrow> bytes \<Rightarrow> str \<Rightarrow> 'fs host \<Rightarrow> error option \<times> 'fs host"
where
  "extract_all_files api n img output_dir h =
     (case ensure_dir api h output_dir of
        (Some e, h1) \<Rightarrow> (Some e, h1)
      | (None, h1) \<Rightarrow>
          files_loop api n img output_dir
            (inode_indices (image_read img BLOCK_SIZE BLOCK_SIZE)) h1)"

subsection \<open>\<^verbatim>\<open>cli\<close>\<close>

datatype mode = Restore | Extract

definition print_info :: "'fs host \<Rightarrow> nat list \<Rightarrow> 'fs host" where
  "print_info h super_block =
     print (print (print (print (print (print (print h MsgSuperblockInfo)
       (MsgMagicNumber (super_block ! 0)))
       (MsgTotalBlocks (super_block ! 1)))
       (MsgInodeBitmapBlocks (super_block ! 2)))
       (MsgInodeAreaBlocks (super_block ! 3)))
       (MsgDataBitmapBlocks (super_block ! 4)))
       (MsgDataAreaBlocks (super_block ! 5))"

definition cli ::
  "'fs host_api \<Rightarrow> nat \<Rightarrow> bytes \<Rightarrow> str \<Rightarrow> mode \<Rightarrow> 'fs host \<Rightarrow> error option \<times> 'fs host"
where
  "cli api n img output m h =
     (case unpack_super_block (image_read img 0 BLOCK_SIZE) of
        Inl e \<Rightarrow> (Some e, h)
      | Inr super_block \<Rightarrow>
          if super_block ! 0 \<noteq> MAGIC_NUMBER
          then (None, print h (MsgMagicMismatch MAGIC_NUMBER (super_block ! 0)))
          else
            (case m of
               Restore \<Rightarrow>
                 (case extract_directory api n img 0 output
                         (print (print_info h super_block) MsgRestoring) of
                    (Some e, h') \<Rightarrow> (Some e, h')
                  | (None, h') \<Rightarrow> (None, print h' MsgRestored))
             | Extract \<Rightarrow>
                 (case extract_all_files api n img output
                         (print (print_info h super_block) MsgExtractingAll) of
                    (Some e, h') \<Rightarrow> (Some e, h')
                  | (None, h') \<Rightarrow> (None, print h' MsgAllExtracted))))"

section \<open>The specification's block address resolver\<close>

text \<open>
  The specification describes resolution as producing the ordered list of block indices
  of a file (\<open>resolveDataBlocks\<close>), where the program appends the bytes of each block as
  it meets it. The definitions of this section follow the specification's words; the
  theorems below compare them with the program.
\<close>

text \<open>The bytes the program reads for block \<open>b\<close>, and for a list of blocks in order.\<close>

definition block_payload :: "bytes \<Rightarrow> nat \<Rightarrow> bytes" where
  "block_payload img b = image_read img (b * BLOCK_SIZE) BLOCK_SIZE"

definition payload :: "bytes \<Rightarrow> nat list \<Rightarrow> bytes" where
  "payload img bs = concat (map (block_payload img) bs)"

text \<open>Applying a function to the value of a result that is no failure.\<close>

definition map_ok :: "('a \<Rightarrow> 'b) \<Rightarrow> error + 'a \<Rightarrow> error + 'b" where
  "map_ok f r = (case r of Inl e \<Rightarrow> Inl e | Inr x \<Rightarrow> Inr (f x))"

text \<open>Appending results in order; the first failure is the failure of the whole.\<close>

fun collect :: "(error + 'a list) list \<Rightarrow> error + 'a list" where
  "collect [] = Inr []"
| "collect (r # rs) =
     (case r of
        Inl e \<Rightarrow> Inl e
      | Inr xs \<Rightarrow> (case collect rs of Inl e \<Rightarrow> Inl e | Inr ys \<Rightarrow> Inr (xs @ ys)))"

text \<open>The entries of a pointer array up to the first 0.\<close>

definition live :: "nat list \<Rightarrow> nat list" where
  "live entries = takeWhile (\<lambda>e. e \<noteq> 0) entries"

text \<open>
  Resolution at level \<open>L\<close> of a block: at level 0 the block is a data block; at level
  \<open>L + 1\<close> it is an indirect block, whose live entries are resolved at level \<open>L\<close>.
\<close>

fun spec_resolveIndirect :: "bytes \<Rightarrow> nat \<Rightarrow> nat \<Rightarrow> error + nat list" where
  "spec_resolveIndirect img 0 b = Inr [b]"
| "spec_resolveIndirect img (Suc l) b =
     (case unpack_indirect_block (block_payload img b) of
        Inl e \<Rightarrow> Inl e
      | Inr entries \<Rightarrow> collect (map (spec_resolveIndirect img l) (live entries)))"

definition spec_resolvePointer :: "bytes \<Rightarrow> nat \<Rightarrow> nat \<Rightarrow> error + nat list" where
  "spec_resolvePointer img l pointer =
     (if pointer \<noteq> 0 then spec_resolveIndirect img l pointer else Inr [])"

definition spec_resolveDataBlocks :: "bytes \<Rightarrow> Inode \<Rightarrow> error + nat list" where
  "spec_resolveDataBlocks img inode =
     collect [Inr (live (direct inode)),
              spec_resolvePointer img 1 (indirect1 inode),
              spec_resolvePointer img 2 (indirect2 inode),
              spec_resolvePointer img 3 (indirect3 inode)]"

section \<open>The specification's directory walk and flat extraction\<close>



text \<open>The inode indices that one byte of the bitmap contributes, given its position.\<close>

definition byte_indices :: "nat \<times> byte \<Rightarrow> nat list" where
  "byte_indices = (\<lambda>(index, byte).
                    map (\<lambda>bit. index * 8 + bit)
                        (filter (\<lambda>bit. byte AND push_bit bit 1 \<noteq> 0) [0..<8]))"

text \<open>
  Writing a list of output files in order, each one reported on the console; the first
  one that the host refuses ends the run.
\<close>

fun emit ::
  "'fs host_api \<Rightarrow> 'fs host \<Rightarrow> (str \<times> bytes) list \<Rightarrow> error option \<times> 'fs host"
where
  "emit api h [] = (None, h)"
| "emit api h ((p, content) # rest) =
     (case write_and_report api h p content of
        (Some e, h') \<Rightarrow> (Some e, h')
      | (None, h') \<Rightarrow> emit api h' rest)"

text \<open>The number that a string of decimal digits denotes.\<close>

definition decimal_value :: "str \<Rightarrow> nat" where
  "decimal_value ds = foldl (\<lambda>a d. 10 * a + (d - 48)) 0 ds"

section \<open>An example image\<close>

text \<open>
  Thirteen blocks: the superblock, the inode bitmap with the bits 0, 3 and 5 set, eight
  inode records in blocks 2 and 3, and from block 4 on the directory, data and indirect
  blocks.
\<close>

definition example_superblock :: bytes where
  "example_superblock =
     [0x01, 0x00, 0x80, 0x3B] @ [13, 0, 0, 0] @ [1, 0, 0, 0] @ [2, 0, 0, 0] @ [0, 0, 0, 0]
     @ [9, 0, 0, 0] @ replicate 488 0"

definition example_bitmap :: bytes where
  "example_bitmap = 41 # replicate 511 0"

text \<open>Inode 0: a directory of size 96 (three entries) in block 4.\<close>

definition example_inode0 :: bytes where
  "example_inode0 = [1, 0, 0, 0] @ [96, 0, 0, 0] @ [4, 0, 0, 0] @ replicate 116 0"

text \<open>Inode 1: a directory of size 64 (no children) in block 4.\<close>

definition example_inode1 :: bytes where
  "example_inode1 = [1, 0, 0, 0] @ [64, 0, 0, 0] @ [4, 0, 0, 0] @ replicate 116 0"

text \<open>Inode 2: a file of size 1536 with only the single-indirect pointer, to block 8.\<close>

definition example_inode2 :: bytes where
  "example_inode2 = [0, 0, 0, 0] @ [0, 6, 0, 0] @ replicate 108 0 @ [8, 0, 0, 0] @ replicate 8 0"

text \<open>Inode 3: a file of size 600 in the blocks 5 and 7.\<close>

definition example_inode3 :: bytes where
  "example_inode3 = [0, 0, 0, 0] @ [88, 2, 0, 0] @ [5, 0, 0, 0] @ [7, 0, 0, 0] @ replicate 112 0"

text \<open>Inode 4: a file of size 1536 with only the double-indirect pointer, to block 9.\<close>

definition example_inode4 :: bytes where
  "example_inode4 = [0, 0, 0, 0] @ [0, 6, 0, 0] @ replicate 112 0 @ [9, 0, 0, 0] @ replicate 4 0"

text \<open>Inode 5: a file of declared size 600 with the single block 5.\<close>

definition example_inode5 :: bytes where
  "example_inode5 = [0, 0, 0, 0] @ [88, 2, 0, 0] @ [5, 0, 0, 0] @ replicate 116 0"

text \<open>Inode 6: a directory of size 128 (four entries) in block 6.\<close>

definition example_inode6 :: bytes where
  "example_inode6 = [1, 0, 0, 0] @ [128, 0, 0, 0] @ [6, 0, 0, 0] @ replicate 116 0"

text \<open>Inode 7: a directory of size 160 (five entries) in block 4.\<close>

definition example_inode7 :: bytes where
  "example_inode7 = [1, 0, 0, 0] @ [160, 0, 0, 0] @ [4, 0, 0, 0] @ replicate 116 0"

definition example_inodes :: bytes where
  "example_inodes =
     example_inode0 @ example_inode1 @ example_inode2 @ example_inode3 @ example_inode4
     @ example_inode5 @ example_inode6 @ example_inode7"

text \<open>
  Block 4: the entries \<open>.\<close> and \<open>..\<close> (inode 0), \<open>a\<close> (inode 3), \<open>a]\<close> (inode 3) and
  \<open>b\<close> (inode 3).
\<close>

definition example_dir_block :: bytes where
  "example_dir_block =
     (46 # replicate 27 0) @ [0, 0, 0, 0] @ (46 # 46 # replicate 26 0) @ [0, 0, 0, 0]
     @ (97 # replicate 27 0) @ [3, 0, 0, 0] @ (97 # 93 # replicate 26 0) @ [3, 0, 0, 0]
     @ (98 # replicate 27 0) @ [3, 0, 0, 0] @ replicate 352 0"

text \<open>
  Block 6: the entries \<open>.\<close> and \<open>..\<close> (inode 0), an entry with the empty name (inode 3)
  and \<open>a\<close> (inode 3).
\<close>

definition example_dir_block2 :: bytes where
  "example_dir_block2 =
     (46 # replicate 27 0) @ [0, 0, 0, 0] @ (46 # 46 # replicate 26 0) @ [0, 0, 0, 0]
     @ replicate 28 0 @ [3, 0, 0, 0] @ (97 # replicate 27 0) @ [3, 0, 0, 0] @ replicate 384 0"

text \<open>Block 8: the indirect block \<open>[10, 11, 12, 0, ...]\<close>; block 9: \<open>[8, 0, ...]\<close>.\<close>

definition example_indirect_block :: bytes where
  "example_indirect_block = [10, 0, 0, 0] @ [11, 0, 0, 0] @ [12, 0, 0, 0] @ replicate 500 0"

definition example_double_block :: bytes where
  "example_double_block = [8, 0, 0, 0] @ replicate 508 0"

definition example_tail :: bytes where
  "example_tail =
     example_bitmap @ example_inodes @ example_dir_block @ replicate 512 0xAA
     @ example_dir_block2 @ replicate 512 0xBB @ example_indirect_block @ example_double_block
     @ replicate 512 0x10 @ replicate 512 0x11 @ replicate 512 0x12"

definition example_image :: bytes where
  "example_image = example_superblock @ example_tail"

text \<open>The same image with a superblock of zeros.\<close>

definition bad_magic_image :: bytes where
  "bad_magic_image = replicate 512 0 @ example_tail"

text \<open>An image cut off three bytes into block 1.\<close>

definition truncated_image :: bytes where
  "truncated_image = replicate 512 0 @ [1, 2, 3]"

subsection \<open>An example host\<close>

text \<open>
  A small host for the examples. Its file system is the list of its directories and the
  list of its files with their contents, under relative paths compared as they are
  written (a directory also with slashes after it). \<^verbatim>\<open>mkdir\<close> raises on a path that
  exists and on a missing parent; opening for writing raises on the empty path, on a path
  that ends in a slash or is a directory, and on a missing parent, and replaces the
  content of a file otherwise. The console raises on a path that holds a closing tag
  \<open>[/...]\<close>.
\<close>

record example_fs =
  dirs :: "str list"
  files :: "(str \<times> bytes) list"

definition strip_slashes :: "str \<Rightarrow> str" where
  "strip_slashes p = rev (dropWhile (\<lambda>c. c = 47) (rev p))"

definition parent_dir :: "str \<Rightarrow> str" where
  "parent_dir p = rev (drop 1 (dropWhile (\<lambda>c. c \<noteq> 47) (rev p)))"

definition parent_present :: "example_fs \<Rightarrow> str \<Rightarrow> bool" where
  "parent_present s p = (parent_dir p = [] \<or> parent_dir p \<in> set (dirs s))"

definition example_exists :: "example_fs \<Rightarrow> str \<Rightarrow> bool" where
  "example_exists s p = (strip_slashes p \<in> set (dirs s) \<or> p \<in> set (map fst (files s)))"

definition example_mkdir :: "example_fs \<Rightarrow> str \<Rightarrow> example_fs option" where
  "example_mkdir s p =
     (if strip_slashes p = [] \<or> example_exists s (strip_slashes p)
         \<or> \<not> parent_present s (strip_slashes p)
      then None
      else Some (s\<lparr>dirs := dirs s @ [strip_slashes p]\<rparr>))"

definition example_open_write :: "example_fs \<Rightarrow> str \<Rightarrow> bytes \<Rightarrow> bool \<times> example_fs" where
  "example_open_write s p content =
     (if p = [] \<or> last p = 47 \<or> p \<in> set (dirs s) \<or> \<not> parent_present s p
      then (False, s)
      else (True, s\<lparr>files := filter (\<lambda>f. fst f \<noteq> p) (files s) @ [(p, content)]\<rparr>))"

fun tag_closes :: "str \<Rightarrow> bool" where
  "tag_closes [] = False"
| "tag_closes (c # cs) = (if c = 93 then True else if c = 91 then False else tag_closes cs)"

fun has_closing_tag :: "str \<Rightarrow> bool" where
  "has_closing_tag (a # b # cs) = ((a = 91 \<and> b = 47 \<and> tag_closes cs) \<or> has_closing_tag (b # cs))"
| "has_closing_tag _ = False"

definition example_api :: "example_fs host_api" where
  "example_api =
     \<lparr>os_path_exists = example_exists, os_mkdir = example_mkdir,
      open_write = example_open_write, markup_error = has_closing_tag\<rparr>"

text \<open>The host before the run: nothing there.\<close>

definition empty_host :: "example_fs host" where
  "empty_host = \<lparr>fs = \<lparr>dirs = [], files = []\<rparr>, console = []\<rparr>"

section \<open>The resolver of the program against the resolver of the specification\<close>

text \<open>
  The loops of \<open>read_indirect_block\<close> and \<open>extract_inode_data\<close> append the payloads of the
  blocks that the specification's resolver lists, in the same order.
\<close>

lemma direct_loop_live:
  "direct_loop img ds data = data @ payload img (live ds)"
  by (induction ds arbitrary: data) (simp_all add: live_def payload_def block_payload_def)

lemma indirect_loop_level1:
  "indirect_loop n img 1 es data = Inr (data @ payload img (live es))"
  by (induction es arbitrary: data) (simp_all add: live_def payload_def block_payload_def)

lemma indirect_loop_deeper:
  assumes "level \<noteq> 1"
  shows "indirect_loop n img level es data =
     (case collect (map (\<lambda>e. read_indirect_block n img e (level - 1)) (live es)) of
        Inl e \<Rightarrow> Inl e
      | Inr sub \<Rightarrow> Inr (data @ sub))"
  using assms
proof (induction es arbitrary: data)
  case Nil
  then show ?case by (simp add: live_def)
next
  case (Cons a es)
  then show ?case
    by (auto simp: live_def split: sum.splits)
qed

lemma collect_map_sum:
  "collect (map (\<lambda>e. map_ok (payload img) (f e)) es) =
     map_ok (payload img) (collect (map f es))"
  by (induction es) (auto simp: payload_def map_ok_def split: sum.splits)

lemma collect_level0: "collect (map (spec_resolveIndirect img 0) es) = Inr es"
  by (induction es) simp_all

lemma read_indirect_block_spec:
  "1 \<le> L \<Longrightarrow> nat L \<le> n \<Longrightarrow>
   read_indirect_block n img b L = map_ok (payload img) (spec_resolveIndirect img (nat L) b)"
proof (induction n arbitrary: L b)
  case 0
  then show ?case by simp
next
  case (Suc n)
  obtain l where l: "nat L = Suc l"
    using Suc.prems(1) by (cases "nat L") simp_all
  show ?case
  proof (cases "unpack_indirect_block (block_payload img b)")
    case (Inl e)
    then show ?thesis
      by (simp add: l map_ok_def block_payload_def)
  next
    case (Inr es)
    show ?thesis
    proof (cases "L = 1")
      case True
      then have "l = 0" using l by simp
      with Inr True show ?thesis
        by (simp add: l map_ok_def indirect_loop_level1 collect_level0
                      block_payload_def [symmetric])
    next
      case False
      have sub: "read_indirect_block n img e (L - 1) =
                   map_ok (payload img) (spec_resolveIndirect img l e)" for e
      proof -
        have "1 \<le> L - 1" "nat (L - 1) \<le> n" "nat (L - 1) = l"
          using Suc.prems False l by simp_all
        then show ?thesis using Suc.IH [of "L - 1" e] by simp
      qed
      have "read_indirect_block (Suc n) img b L = indirect_loop n img L es []"
        using Inr by (simp add: block_payload_def)
      also have "\<dots> = map_ok (payload img) (collect (map (spec_resolveIndirect img l) (live es)))"
        by (simp add: indirect_loop_deeper [OF False] sub collect_map_sum)
           (simp add: map_ok_def split: sum.splits)
      also have "\<dots> = map_ok (payload img) (spec_resolveIndirect img (nat L) b)"
        using Inr by (simp add: l)
      finally show ?thesis .
    qed
  qed
qed


lemma payload_unfold:
  "payload img bs = concat (map (\<lambda>e. image_read img (e * BLOCK_SIZE) BLOCK_SIZE) bs)"
  by (induction bs) (simp_all add: payload_def block_payload_def)

lemma add_indirect_spec:
  "1 \<le> L \<Longrightarrow> nat L \<le> n \<Longrightarrow>
   add_indirect n img p L data =
     map_ok (\<lambda>bs. data @ payload img bs) (spec_resolvePointer img (nat L) p)"
  by (simp add: add_indirect_def spec_resolvePointer_def read_indirect_block_spec map_ok_def
                payload_def split: sum.splits)

lemma payload_append: "payload img (xs @ ys) = payload img xs @ payload img ys"
  by (simp add: payload_def)

lemma inode_blocks_data_spec:
  assumes "3 \<le> n"
  shows "inode_blocks_data n img inode = map_ok (payload img) (spec_resolveDataBlocks img inode)"
proof -
  have a: "add_indirect n img p 1 data =
             map_ok (\<lambda>bs. data @ payload img bs) (spec_resolvePointer img 1 p)" for p data
    using add_indirect_spec [of 1 n img p data] assms by simp
  have b: "add_indirect n img p 2 data =
             map_ok (\<lambda>bs. data @ payload img bs) (spec_resolvePointer img 2 p)" for p data
    using add_indirect_spec [of 2 n img p data] assms by simp
  have c: "add_indirect n img p 3 data =
             map_ok (\<lambda>bs. data @ payload img bs) (spec_resolvePointer img 3 p)" for p data
    using add_indirect_spec [of 3 n img p data] assms by simp
  show ?thesis
    by (simp add: inode_blocks_data_def spec_resolveDataBlocks_def a b c direct_loop_live
                  map_ok_def payload_append split: sum.splits)
qed

lemma extract_inode_data_spec:
  assumes "3 \<le> n"
  shows "extract_inode_data n img inode =
           map_ok (\<lambda>bs. take (inode_size inode) (payload img bs)) (spec_resolveDataBlocks img inode)"
  by (simp add: extract_inode_data_def inode_blocks_data_spec [OF assms] map_ok_def
           split: sum.splits)

lemma extract_inode_data_direct_only:
  assumes "indirect1 inode = 0" "indirect2 inode = 0" "indirect3 inode = 0"
  shows "extract_inode_data n img inode =
           Inr (take (inode_size inode) (payload img (live (direct inode))))"
  using assms
  by (simp add: extract_inode_data_def inode_blocks_data_def add_indirect_def direct_loop_live)


lemma live_zeros: "live (replicate k 0) = []"
  by (cases k) (simp_all add: live_def)

lemma length_uint32s: "length (uint32s xs) = length xs div 4"
  by (induction xs rule: uint32s.induct) simp_all



lemma read_inode_direct_length:
  assumes "read_inode img i = Inr inode"
  shows "length (direct inode) = 27"
proof -
  from assms obtain u where u: "unpack_disk_inode
      (image_read img (BLOCK_SIZE * 2 + DISK_INODE_SIZE * i) DISK_INODE_SIZE) = Inr u"
    and d: "direct inode = take 27 (drop 2 u)"
    by (auto simp: read_inode_def split: sum.splits)
  from u have "length u = 32"
    by (auto simp: unpack_disk_inode_def length_uint32s split: if_splits)
  with d show ?thesis by simp
qed

section \<open>Directory entries and the walk\<close>

lemma utf8_decode_ascii:
  "\<forall>b \<in> set bs. unat b < 128 \<Longrightarrow> utf8_decode bs = Inr (map unat bs)"
  by (induction bs) (simp_all add: cons_result_def)

lemma utf8_decode_ff: "utf8_decode (replicate (Suc k) 0xFF) = Inl UnicodeDecodeError"
  by simp

lemma decode_dir_entry_eq:
  assumes "length entry = 32"
  shows "decode_dir_entry entry =
           map_ok (\<lambda>name. (name, le_uint (drop 28 entry)))
                  (utf8_decode (takeWhile (\<lambda>b. b \<noteq> 0) (take 28 entry)))"
  using assms
  by (simp add: decode_dir_entry_def unpack_dir_entry_def map_ok_def split: sum.splits)







lemma extract_directory_file:
  assumes "read_inode img i = Inr inode" "file_type inode = 0"
    and "extract_inode_data n img inode = Inr content"
  shows "extract_directory api (Suc n) img i path h = write_and_report api h path content"
  using assms by simp

lemma extract_directory_other:
  assumes "read_inode img i = Inr inode" "file_type inode \<noteq> 0" "file_type inode \<noteq> 1"
  shows "extract_directory api (Suc n) img i path h = (None, h)"
  using assms by simp

section \<open>The bitmap scan and the flat extraction\<close>

lemma inode_indices_alt: "inode_indices bm = concat (map byte_indices (enumerate 0 bm))"
  by (simp add: inode_indices_def byte_indices_def)

lemma set_byte_indices:
  "set (byte_indices (i, w)) = {i * 8 + b | b. b < 8 \<and> bit w b}"
  by (auto simp: byte_indices_def bit_iff_and_push_bit_not_eq_0)

lemma sorted_byte_indices: "sorted_wrt (<) (byte_indices (i, w))"
  by (simp add: byte_indices_def sorted_wrt_map sorted_wrt_filter)

lemma set_indices_from:
  "set (concat (map byte_indices (enumerate k bm))) =
     {i * 8 + b | i b. k \<le> i \<and> i < k + length bm \<and> b < 8 \<and> bit (bm ! (i - k)) b}"
proof (induction bm arbitrary: k)
  case Nil
  show ?case by simp
next
  case (Cons w bm)
  have "{i * 8 + b | i b. k \<le> i \<and> i < k + length (w # bm) \<and> b < 8 \<and> bit ((w # bm) ! (i - k)) b}
        = {k * 8 + b | b. b < 8 \<and> bit w b}
          \<union> {i * 8 + b | i b. Suc k \<le> i \<and> i < Suc k + length bm \<and> b < 8 \<and> bit (bm ! (i - Suc k)) b}"
    (is "?L = ?A \<union> ?B")
  proof (intro set_eqI iffI)
    fix x assume "x \<in> ?L"
    then obtain i b where x: "x = i * 8 + b" "k \<le> i" "i < k + length (w # bm)" "b < 8"
      "bit ((w # bm) ! (i - k)) b" by blast
    show "x \<in> ?A \<union> ?B"
    proof (cases "i = k")
      case True
      with x show ?thesis by auto
    next
      case False
      with x have i: "Suc k \<le> i" "i < Suc k + length bm"
        by simp_all
      then have "i - k = Suc (i - Suc k)"
        by simp
      then have "(w # bm) ! (i - k) = bm ! (i - Suc k)"
        by simp
      with x i show ?thesis by auto
    qed
  next
    fix x assume "x \<in> ?A \<union> ?B"
    then show "x \<in> ?L"
    proof
      assume "x \<in> ?A"
      then obtain b where "x = k * 8 + b" "b < 8" "bit w b" by blast
      then have "x = k * 8 + b \<and> k \<le> k \<and> k < k + length (w # bm) \<and> b < 8
                 \<and> bit ((w # bm) ! (k - k)) b"
        by simp
      then show ?thesis by blast
    next
      assume "x \<in> ?B"
      then obtain i b where x: "x = i * 8 + b" "Suc k \<le> i" "i < Suc k + length bm" "b < 8"
        "bit (bm ! (i - Suc k)) b" by blast
      then have "i - k = Suc (i - Suc k)"
        by simp
      then have "(w # bm) ! (i - k) = bm ! (i - Suc k)"
        by simp
      with x have "k \<le> i" "i < k + length (w # bm)" "bit ((w # bm) ! (i - k)) b"
        by auto
      with x show ?thesis by blast
    qed
  qed
  then show ?case
    using Cons.IH [of "Suc k"] by (simp add: set_byte_indices)
qed

lemma sorted_indices_from: "sorted_wrt (<) (concat (map byte_indices (enumerate k bm)))"
proof (induction bm arbitrary: k)
  case Nil
  show ?case by simp
next
  case (Cons w bm)
  have "x < y" if "x \<in> set (byte_indices (k, w))"
    and "y \<in> set (concat (map byte_indices (enumerate (Suc k) bm)))" for x y
  proof -
    from that(1) obtain b where x: "x = k * 8 + b" "b < 8"
      by (auto simp: set_byte_indices)
    from that(2) obtain i c where y: "y = i * 8 + c" "Suc k \<le> i"
      unfolding set_indices_from by blast
    have "Suc k * 8 \<le> i * 8"
      using y(2) by (rule mult_le_mono1)
    with x y show ?thesis
      by simp
  qed
  then show ?case
    using Cons.IH [of "Suc k"] by (simp add: sorted_wrt_append sorted_byte_indices)
qed

lemma byte_indices_zero: "byte_indices (k, 0) = []"
  by (simp add: byte_indices_def)

lemma zero_bytes_no_indices: "concat (map byte_indices (enumerate k (replicate m 0))) = []"
  by (induction m arbitrary: k) (simp_all add: byte_indices_zero)

lemma files_loop_single:
  assumes "read_inode img i = Inr inode" "file_type inode \<noteq> 1"
    and "extract_inode_data n img inode = Inr content"
  shows "files_loop api n img out [i] h =
           write_and_report api h (path_join out (ascii ''inode'' @ decimal i)) content"
  using assms by (simp split: prod.splits option.splits)

lemma files_loop_outputs:
  assumes "\<forall>i \<in> set indices. read_inode img i = Inr (ino i)
             \<and> (file_type (ino i) \<noteq> 1 \<longrightarrow> extract_inode_data n img (ino i) = Inr (content i))"
  shows "files_loop api n img out indices h =
           emit api h (map (\<lambda>i. (path_join out (ascii ''inode'' @ decimal i), content i))
                           (filter (\<lambda>i. file_type (ino i) \<noteq> 1) indices))"
  using assms
proof (induction indices arbitrary: h)
  case Nil
  show ?case by simp
next
  case (Cons i indices)
  then have r: "read_inode img i = Inr (ino i)"
    and rest: "\<forall>j \<in> set indices. read_inode img j = Inr (ino j)
             \<and> (file_type (ino j) \<noteq> 1 \<longrightarrow> extract_inode_data n img (ino j) = Inr (content j))"
    by simp_all
  show ?case
  proof (cases "file_type (ino i) = 1")
    case True
    then show ?thesis
      using r Cons.IH [OF rest] by simp
  next
    case False
    with Cons.prems have "extract_inode_data n img (ino i) = Inr (content i)"
      by simp
    then show ?thesis
      using r False Cons.IH [OF rest] by (simp split: prod.splits option.splits)
  qed
qed

lemma write_and_report_accepting:
  assumes "\<forall>s p c. fst (open_write api s p c)" and "\<forall>p. \<not> markup_error api p"
  shows "fst (write_and_report api h p content) = None"
proof -
  obtain ok s where o: "open_write api (fs h) p content = (ok, s)"
    by (cases "open_write api (fs h) p content")
  with assms(1) have "ok"
    by (metis fst_conv)
  with o assms(2) show ?thesis
    by (simp add: write_and_report_def print_extracted_def)
qed

lemma emit_accepting:
  assumes "\<forall>s p c. fst (open_write api s p c)" and "\<forall>p. \<not> markup_error api p"
  shows "fst (emit api h outs) = None"
proof (induction outs arbitrary: h)
  case Nil
  show ?case by simp
next
  case (Cons x outs)
  obtain p content where x: "x = (p, content)"
    by (cases x)
  obtain e h' where w: "write_and_report api h p content = (e, h')"
    by (cases "write_and_report api h p content")
  with write_and_report_accepting [OF assms, of h p content] have "e = None"
    by simp
  with w x Cons.IH [of h'] show ?case
    by simp
qed

lemma ensure_dir_accepting:
  assumes "\<forall>s p. os_mkdir api s p \<noteq> None"
  shows "fst (ensure_dir api h p) = None"
proof (cases "os_mkdir api (fs h) p")
  case None
  with assms show ?thesis by blast
next
  case (Some s)
  then show ?thesis by (simp add: ensure_dir_def)
qed

lemma read_inode_readable:
  "(\<exists>inode. read_inode img i = Inr inode) \<longleftrightarrow> 1024 + 128 * i + 128 \<le> length img"
proof -
  have "length (image_read img (BLOCK_SIZE * 2 + DISK_INODE_SIZE * i) DISK_INODE_SIZE) = 128
          \<longleftrightarrow> 1024 + 128 * i + 128 \<le> length img"
    by (auto simp: image_read_def BLOCK_SIZE_def DISK_INODE_SIZE_def)
  then show ?thesis
    by (auto simp: read_inode_def unpack_disk_inode_def split: sum.splits if_splits)
qed

lemma decimal_nonempty: "decimal n \<noteq> []"
  by (subst decimal.simps) simp

lemma decimal_value_decimal: "decimal_value (decimal n) = n"
proof (induction n rule: decimal.induct)
  case (1 n)
  show ?case
  proof (cases "n < 10")
    case True
    then show ?thesis
      by (subst decimal.simps) (simp add: decimal_value_def)
  next
    case False
    with "1.IH" have "decimal_value (decimal (n div 10)) = n div 10"
      by simp
    moreover have "decimal n = decimal (n div 10) @ [48 + n mod 10]"
      using False by (subst decimal.simps) simp
    ultimately show ?thesis
      by (simp add: decimal_value_def)
  qed
qed

lemma decimal_digits: "d \<in> set (decimal n) \<Longrightarrow> 48 \<le> d \<and> d \<le> 57"
proof (induction n rule: decimal.induct)
  case (1 n)
  show ?case
  proof (cases "n < 10")
    case True
    with "1.prems" show ?thesis
      by (subst (asm) decimal.simps) simp
  next
    case False
    then have "decimal n = decimal (n div 10) @ [48 + n mod 10]"
      by (subst decimal.simps) simp
    with "1.prems" have "d \<in> set (decimal (n div 10)) \<or> d = 48 + n mod 10"
      by auto
    then show ?thesis
    proof
      assume "d \<in> set (decimal (n div 10))"
      with "1.IH" False show ?thesis by simp
    next
      assume "d = 48 + n mod 10"
      moreover have "n mod 10 < 10" by simp
      ultimately show ?thesis by linarith
    qed
  qed
qed

lemma decimal_leading: "hd (decimal n) = 48 \<Longrightarrow> n = 0"
proof (induction n rule: decimal.induct)
  case (1 n)
  show ?case
  proof (cases "n < 10")
    case True
    with "1.prems" show ?thesis
      by (subst (asm) decimal.simps) simp
  next
    case False
    then have "decimal n = decimal (n div 10) @ [48 + n mod 10]"
      by (subst decimal.simps) simp
    with "1.prems" have "hd (decimal (n div 10)) = 48"
      by (simp add: decimal_nonempty)
    with "1.IH" False have "n div 10 = 0"
      by simp
    with False show ?thesis
      by simp
  qed
qed

lemma inode_file_path:
  "path_join out (ascii ''inode'' @ decimal i) =
     (if out = [] \<or> last out = 47 then out else out @ [47]) @ ascii ''inode'' @ decimal i"
  by (simp add: path_join_def ascii_def)

lemma extract_all_files_outputs:
  assumes "3 \<le> n"
    and "\<forall>i \<in> set (inode_indices (image_read img BLOCK_SIZE BLOCK_SIZE)).
           read_inode img i = Inr (ino i)
           \<and> (file_type (ino i) \<noteq> 1 \<longrightarrow> spec_resolveDataBlocks img (ino i) = Inr (blocks i))"
  shows "extract_all_files api n img out h =
           (case ensure_dir api h out of
              (Some e, h1) \<Rightarrow> (Some e, h1)
            | (None, h1) \<Rightarrow>
                emit api h1
                  (map (\<lambda>i. (path_join out (ascii ''inode'' @ decimal i),
                              take (inode_size (ino i)) (payload img (blocks i))))
                       (filter (\<lambda>i. file_type (ino i) \<noteq> 1)
                          (inode_indices (image_read img BLOCK_SIZE BLOCK_SIZE)))))"
proof -
  have "\<forall>i \<in> set (inode_indices (image_read img BLOCK_SIZE BLOCK_SIZE)).
           read_inode img i = Inr (ino i)
           \<and> (file_type (ino i) \<noteq> 1 \<longrightarrow>
                extract_inode_data n img (ino i) =
                  Inr (take (inode_size (ino i)) (payload img (blocks i))))"
    using assms by (simp add: extract_inode_data_spec map_ok_def)
  note fl = files_loop_outputs [OF this]
  show ?thesis
    by (simp add: extract_all_files_def fl split: prod.splits option.splits)
qed

lemma extract_all_files_accepting:
  assumes "3 \<le> n"
    and "\<forall>i \<in> set (inode_indices (image_read img BLOCK_SIZE BLOCK_SIZE)).
           read_inode img i = Inr (ino i)
           \<and> (file_type (ino i) \<noteq> 1 \<longrightarrow> spec_resolveDataBlocks img (ino i) = Inr (blocks i))"
    and "\<forall>s p. os_mkdir api s p \<noteq> None"
    and "\<forall>s p c. fst (open_write api s p c)"
    and "\<forall>p. \<not> markup_error api p"
  shows "fst (extract_all_files api n img out h) = None"
proof -
  obtain r h1 where en: "ensure_dir api h out = (r, h1)"
    by (cases "ensure_dir api h out")
  with ensure_dir_accepting [OF assms(3), of h out] have "r = None"
    by simp
  with en show ?thesis
    unfolding extract_all_files_outputs [OF assms(1,2)]
    by (simp add: emit_accepting [OF assms(4,5)])
qed

section \<open>Evaluating the example image\<close>

text \<open>
  The reads of the example image, by the lengths of its parts.
\<close>

lemma image_read_skip:
  "length xs \<le> pos \<Longrightarrow> image_read (xs @ ys) pos n = image_read ys (pos - length xs) n"
  by (simp add: image_read_def)

lemma image_read_here: "length xs = n \<Longrightarrow> image_read (xs @ ys) 0 n = xs"
  by (simp add: image_read_def)

lemma image_read_all: "length xs = n \<Longrightarrow> image_read xs 0 n = xs"
  by (simp add: image_read_def)

lemma uint32s_zeros_mult: "uint32s (replicate (4 * k) 0 @ ys) = replicate k 0 @ uint32s ys"
proof (induction k)
  case 0
  show ?case by simp
next
  case (Suc k)
  have "4 * Suc k = Suc (Suc (Suc (Suc (4 * k))))" by simp
  then show ?case using Suc.IH by (simp del: mult_Suc_right)
qed

lemma uint32s_zeros_append:
  "n mod 4 = 0 \<Longrightarrow> uint32s (replicate n 0 @ ys) = replicate (n div 4) 0 @ uint32s ys"
proof -
  assume "n mod 4 = 0"
  then have "4 * (n div 4) = n" by presburger
  then show ?thesis using uint32s_zeros_mult [of "n div 4" ys] by simp
qed

lemma uint32s_zeros: "n mod 4 = 0 \<Longrightarrow> uint32s (replicate n 0) = replicate (n div 4) 0"
  using uint32s_zeros_append [of n "[]"] by simp

lemma example_lengths:
  "length example_superblock = 512"
  "length example_bitmap = 512"
  "length example_inode0 = 128"
  "length example_inode1 = 128"
  "length example_inode2 = 128"
  "length example_inode3 = 128"
  "length example_inode4 = 128"
  "length example_inode5 = 128"
  "length example_inode6 = 128"
  "length example_inode7 = 128"
  "length example_dir_block = 512"
  "length example_dir_block2 = 512"
  "length example_indirect_block = 512"
  "length example_double_block = 512"
  by (simp_all add: example_superblock_def example_bitmap_def example_inode0_def
        example_inode1_def example_inode2_def example_inode3_def example_inode4_def
        example_inode5_def example_inode6_def example_inode7_def example_dir_block_def
        example_dir_block2_def example_indirect_block_def example_double_block_def)

lemmas example_reads =
  example_image_def example_tail_def example_inodes_def block_payload_def BLOCK_SIZE_def
  DISK_INODE_SIZE_def image_read_skip image_read_here image_read_all example_lengths

lemma example_blocks:
  "block_payload example_image 4 = example_dir_block"
  "block_payload example_image 5 = replicate 512 0xAA"
  "block_payload example_image 7 = replicate 512 0xBB"
  "block_payload example_image 8 = example_indirect_block"
  "block_payload example_image 9 = example_double_block"
  "block_payload example_image 10 = replicate 512 0x10"
  "block_payload example_image 11 = replicate 512 0x11"
  "block_payload example_image 12 = replicate 512 0x12"
  "block_payload example_image 6 = example_dir_block2"
  by (simp_all add: example_reads)

lemma example_inode3_read:
  "read_inode example_image 3 =
     Inr \<lparr>file_type = 0, inode_size = 600, direct = 5 # 7 # replicate 25 0,
          indirect1 = 0, indirect2 = 0, indirect3 = 0\<rparr>"
  by (simp add: read_inode_def example_reads unpack_disk_inode_def)
     (simp add: example_inode3_def uint32s_zeros)

lemma example_inode0_read:
  "read_inode example_image 0 =
     Inr \<lparr>file_type = 1, inode_size = 96, direct = 4 # replicate 26 0,
          indirect1 = 0, indirect2 = 0, indirect3 = 0\<rparr>"
  by (simp add: read_inode_def example_reads unpack_disk_inode_def)
     (simp add: example_inode0_def uint32s_zeros)



lemma example_inode4_read:
  "read_inode example_image 4 =
     Inr \<lparr>file_type = 0, inode_size = 1536, direct = replicate 27 0,
          indirect1 = 0, indirect2 = 9, indirect3 = 0\<rparr>"
  by (simp add: read_inode_def example_reads unpack_disk_inode_def)
     (simp add: example_inode4_def uint32s_zeros uint32s_zeros_append nth_append)

lemma example_inode5_read:
  "read_inode example_image 5 =
     Inr \<lparr>file_type = 0, inode_size = 600, direct = 5 # replicate 26 0,
          indirect1 = 0, indirect2 = 0, indirect3 = 0\<rparr>"
  by (simp add: read_inode_def example_reads unpack_disk_inode_def)
     (simp add: example_inode5_def uint32s_zeros)




lemma example_payloads:
  "payload example_image [10, 11, 12] =
     replicate 512 0x10 @ replicate 512 0x11 @ replicate 512 0x12"
  "payload example_image [5, 7] = replicate 512 0xAA @ replicate 512 0xBB"
  "payload example_image [5] = replicate 512 0xAA"
  "payload example_image [4] = example_dir_block"
  by (simp_all add: payload_def example_blocks)

lemma ascii_out: "ascii ''out'' = [111, 117, 116]"
  by (simp add: ascii_def)

lemma example_paths:
  "path_join (ascii ''out'') (ascii ''inode'' @ decimal 3) =
     [111, 117, 116, 47, 105, 110, 111, 100, 101, 51]"
  "path_join (ascii ''out'') (ascii ''inode'' @ decimal 5) =
     [111, 117, 116, 47, 105, 110, 111, 100, 101, 53]"
  "path_join (ascii ''out'') [97] = [111, 117, 116, 47, 97]"
  by (simp_all add: path_join_def ascii_def decimal.simps)

lemma example_inode5_short:
  "extract_inode_data n example_image
     \<lparr>file_type = 0, inode_size = 600, direct = 5 # replicate 26 0,
      indirect1 = 0, indirect2 = 0, indirect3 = 0\<rparr> = Inr (replicate 512 0xAA)"
  by (simp add: extract_inode_data_direct_only live_def example_payloads)


lemma example_file_content:
  "extract_inode_data n example_image
     \<lparr>file_type = 0, inode_size = 600, direct = 5 # 7 # replicate 25 0,
      indirect1 = 0, indirect2 = 0, indirect3 = 0\<rparr> =
   Inr (replicate 512 0xAA @ replicate 88 0xBB)"
  by (simp add: extract_inode_data_direct_only live_def example_payloads)



lemma example_bitmap_read: "image_read example_image BLOCK_SIZE BLOCK_SIZE = example_bitmap"
  by (simp add: example_reads)

lemma example_bitmap_indices: "inode_indices example_bitmap = [0, 3, 5]"
proof -
  have u: "[0..<8] = [0, 1, 2, 3, 4, 5, 6, 7]"
    by (simp add: upt_rec)
  have "byte_indices (0, 41) = [0, 3, 5]"
    by (simp add: byte_indices_def u)
  moreover have "enumerate 0 example_bitmap = (0, 41) # enumerate 1 (replicate 511 0)"
    by (simp add: example_bitmap_def)
  ultimately show ?thesis
    by (simp add: inode_indices_alt zero_bytes_no_indices)
qed

lemma example_superblock_fields:
  "unpack_super_block (image_read example_image 0 BLOCK_SIZE) = Inr [998244353, 13, 1, 2, 0, 9]"
  by (simp add: example_image_def BLOCK_SIZE_def image_read_here example_lengths
        unpack_super_block_def)
     (simp add: example_superblock_def)

lemmas example_host_defs =
  write_and_report_def print_extracted_def print_def ensure_dir_def example_api_def
  example_exists_def example_mkdir_def example_open_write_def strip_slashes_def
  parent_dir_def parent_present_def empty_host_def












lemma example_cli_extract:
  "cli example_api 3 example_image [111, 117, 116] Extract empty_host =
     (None, \<lparr>fs = \<lparr>dirs = [[111, 117, 116]],
                   files = [([111, 117, 116, 47, 105, 110, 111, 100, 101, 51],
                             replicate 512 0xAA @ replicate 88 0xBB),
                            ([111, 117, 116, 47, 105, 110, 111, 100, 101, 53],
                             replicate 512 0xAA)]\<rparr>,
             console = [MsgSuperblockInfo, MsgMagicNumber 998244353, MsgTotalBlocks 13,
                        MsgInodeBitmapBlocks 1, MsgInodeAreaBlocks 2, MsgDataBitmapBlocks 0,
                        MsgDataAreaBlocks 9, MsgExtractingAll,
                        MsgExtracted [111, 117, 116, 47, 105, 110, 111, 100, 101, 51],
                        MsgExtracted [111, 117, 116, 47, 105, 110, 111, 100, 101, 53],
                        MsgAllExtracted]\<rparr>)"
  by (simp add: cli_def example_superblock_fields MAGIC_NUMBER_def print_info_def
        extract_all_files_def example_bitmap_read example_bitmap_indices
        example_inode0_read example_inode3_read example_inode5_read
        example_file_content example_inode5_short example_host_defs
        path_join_def ascii_def decimal.simps)

section \<open>Properties of the program\<close>



text \<open>
  C2. The loop over the direct pointers appends the blocks of the pointers before the
  first 0, in field order, and nothing of that 0 or of any pointer after it. An inode
  read from the image has 27 direct pointers, and with no indirect pointer the content
  is made of these blocks alone.
\<close>

theorem direct_loop_stops_at_first_zero:
  "direct_loop img (direct inode) data =
     data @ concat (map (\<lambda>b. image_read img (b * BLOCK_SIZE) BLOCK_SIZE)
                        (takeWhile (\<lambda>b. b \<noteq> 0) (direct inode)))
   \<and> (read_inode img i = Inr inode \<longrightarrow> length (direct inode) = 27)
   \<and> (indirect1 inode = 0 \<and> indirect2 inode = 0 \<and> indirect3 inode = 0 \<longrightarrow>
        extract_inode_data n img inode =
          Inr (take (inode_size inode)
                 (concat (map (\<lambda>b. image_read img (b * BLOCK_SIZE) BLOCK_SIZE)
                              (takeWhile (\<lambda>b. b \<noteq> 0) (direct inode))))))"
  using read_inode_direct_length [of img i inode]
        extract_inode_data_direct_only [of inode n img]
  by (simp add: direct_loop_live payload_unfold live_def)

theorem direct_loop_stops_at_first_zero_witness:
  "read_inode example_image 3 =
     Inr \<lparr>file_type = 0, inode_size = 600, direct = 5 # 7 # replicate 25 0,
          indirect1 = 0, indirect2 = 0, indirect3 = 0\<rparr>
   \<and> direct_loop example_image (5 # 7 # replicate 25 0) [] =
       replicate 512 0xAA @ replicate 512 0xBB
   \<and> direct_loop example_image [5, 7, 0, 4] [] = replicate 512 0xAA @ replicate 512 0xBB
   \<and> extract_inode_data 0 example_image
         \<lparr>file_type = 0, inode_size = 600, direct = 5 # 7 # replicate 25 0,
          indirect1 = 0, indirect2 = 0, indirect3 = 0\<rparr> =
       Inr (replicate 512 0xAA @ replicate 88 0xBB)"
proof -
  let ?ino = "\<lparr>file_type = 0, inode_size = 600, direct = 5 # 7 # replicate 25 0,
          indirect1 = 0, indirect2 = 0, indirect3 = 0\<rparr>"
  let ?ino' = "\<lparr>file_type = 0, inode_size = 600, direct = [5, 7, 0, 4],
          indirect1 = 0, indirect2 = 0, indirect3 = 0\<rparr>"
  have blocks: "image_read example_image (5 * BLOCK_SIZE) BLOCK_SIZE = replicate 512 0xAA"
    "image_read example_image (7 * BLOCK_SIZE) BLOCK_SIZE = replicate 512 0xBB"
    using example_blocks(2,3) by (simp_all add: block_payload_def)
  have tw: "takeWhile (\<lambda>b. b \<noteq> 0) (5 # 7 # replicate 25 (0::nat)) = [5, 7]"
    using live_zeros [of 25] by (simp add: live_def)
  show ?thesis
    using direct_loop_stops_at_first_zero [of example_image ?ino "[]" 3 0]
          direct_loop_stops_at_first_zero [of example_image ?ino' "[]" 3 0]
          example_inode3_read
    by (simp add: blocks tw)
qed

text \<open>
  C3, as the program has it. When the resolved blocks hold fewer bytes than
  \<open>inode.size\<close> (and the interpreter allows three more nested calls), extraction does not
  fail: it returns all the resolved bytes, a content shorter than the declared size.
  That short content is what is handed to the host wherever the inode is written: by the
  flat extraction for an inode that is no directory, to the file \<open>inode<index>\<close>, and by
  the walk for a regular file (type 0), to its path. The walk writes nothing for an inode
  of another type that is no directory.
\<close>

theorem short_content_is_returned_and_written:
  assumes "3 \<le> n"
    and "spec_resolveDataBlocks img inode = Inr bs"
    and "length (payload img bs) < inode_size inode"
  shows "extract_inode_data n img inode = Inr (payload img bs)
     \<and> (read_inode img i = Inr inode \<and> file_type inode \<noteq> 1 \<longrightarrow>
          files_loop api n img out [i] h =
            write_and_report api h (path_join out (ascii ''inode'' @ decimal i))
              (payload img bs))
     \<and> (read_inode img i = Inr inode \<and> file_type inode = 0 \<longrightarrow>
          extract_directory api (Suc n) img i path h =
            write_and_report api h path (payload img bs))
     \<and> (read_inode img i = Inr inode \<and> file_type inode \<noteq> 0 \<and> file_type inode \<noteq> 1 \<longrightarrow>
          extract_directory api (Suc n) img i path h = (None, h))"
proof -
  have e: "extract_inode_data n img inode = Inr (payload img bs)"
    using assms by (simp add: extract_inode_data_spec map_ok_def)
  then show ?thesis
    using files_loop_single [of img i inode n "payload img bs" api out h]
          extract_directory_file [of img i inode n "payload img bs" api path h]
          extract_directory_other [of img i inode api n path h]
    by blast
qed

theorem short_content_is_returned_and_written_witness:
  "(3 :: nat) \<le> 3
   \<and> spec_resolveDataBlocks example_image
        \<lparr>file_type = 0, inode_size = 600, direct = 5 # replicate 26 0,
         indirect1 = 0, indirect2 = 0, indirect3 = 0\<rparr> = Inr [5]
   \<and> length (payload example_image [5]) < 600
   \<and> read_inode example_image 5 =
        Inr \<lparr>file_type = 0, inode_size = 600, direct = 5 # replicate 26 0,
             indirect1 = 0, indirect2 = 0, indirect3 = 0\<rparr>
   \<and> extract_directory example_api (Suc 3) example_image 5 [111, 117, 116] empty_host =
        (None, \<lparr>fs = \<lparr>dirs = [], files = [([111, 117, 116], replicate 512 0xAA)]\<rparr>,
                console = [MsgExtracted [111, 117, 116]]\<rparr>)"
proof -
  let ?ino = "\<lparr>file_type = 0, inode_size = 600, direct = 5 # replicate 26 0,
         indirect1 = 0, indirect2 = 0, indirect3 = 0\<rparr>"
  have n: "(3 :: nat) \<le> 3" by simp
  have r: "spec_resolveDataBlocks example_image ?ino = Inr [5]"
    by (simp add: spec_resolveDataBlocks_def spec_resolvePointer_def live_def)
  have l: "length (payload example_image [5]) < inode_size ?ino"
    by (simp add: example_payloads)
  have "extract_directory example_api (Suc 3) example_image 5 [111, 117, 116] empty_host =
          write_and_report example_api empty_host [111, 117, 116] (payload example_image [5])"
    using short_content_is_returned_and_written
            [OF n r l, of 5 example_api "[]" empty_host "[111, 117, 116]"]
          example_inode5_read
    by (simp del: extract_directory.simps)
  then show ?thesis
    using r l example_inode5_read
    by (simp add: example_payloads example_host_defs del: extract_directory.simps)
qed

theorem incomplete_data_counterexample:
  "read_inode example_image 5 =
     Inr \<lparr>file_type = 0, inode_size = 600, direct = 5 # replicate 26 0,
          indirect1 = 0, indirect2 = 0, indirect3 = 0\<rparr>
   \<and> spec_resolveDataBlocks example_image
        \<lparr>file_type = 0, inode_size = 600, direct = 5 # replicate 26 0,
         indirect1 = 0, indirect2 = 0, indirect3 = 0\<rparr> = Inr [5]
   \<and> extract_inode_data 3 example_image
        \<lparr>file_type = 0, inode_size = 600, direct = 5 # replicate 26 0,
         indirect1 = 0, indirect2 = 0, indirect3 = 0\<rparr> = Inr (replicate 512 0xAA)
   \<and> files_loop example_api 3 example_image (ascii ''out'') [5]
        \<lparr>fs = \<lparr>dirs = [[111, 117, 116]], files = []\<rparr>, console = []\<rparr> =
        (None, \<lparr>fs = \<lparr>dirs = [[111, 117, 116]],
                      files = [([111, 117, 116, 47, 105, 110, 111, 100, 101, 53],
                                replicate 512 0xAA)]\<rparr>,
                console = [MsgExtracted [111, 117, 116, 47, 105, 110, 111, 100, 101, 53]]\<rparr>)"
proof -
  let ?ino = "\<lparr>file_type = 0, inode_size = 600, direct = 5 # replicate 26 0,
         indirect1 = 0, indirect2 = 0, indirect3 = 0\<rparr>"
  have r: "spec_resolveDataBlocks example_image ?ino = Inr [5]"
    by (simp add: spec_resolveDataBlocks_def spec_resolvePointer_def live_def)
  have "files_loop example_api 3 example_image (ascii ''out'') [5]
        \<lparr>fs = \<lparr>dirs = [[111, 117, 116]], files = []\<rparr>, console = []\<rparr> =
        (None, \<lparr>fs = \<lparr>dirs = [[111, 117, 116]],
                      files = [([111, 117, 116, 47, 105, 110, 111, 100, 101, 53],
                                replicate 512 0xAA)]\<rparr>,
                console = [MsgExtracted [111, 117, 116, 47, 105, 110, 111, 100, 101, 53]]\<rparr>)"
    using files_loop_single [OF example_inode5_read _ example_inode5_short,
            of example_api 3 "ascii ''out''"
               "\<lparr>fs = \<lparr>dirs = [[111, 117, 116]], files = []\<rparr>, console = []\<rparr>"]
    by (simp add: path_join_def ascii_def decimal.simps example_host_defs
             del: files_loop.simps)
  then show ?thesis
    using r example_inode5_read example_inode5_short by simp
qed

text \<open>
  C4. When the resolved blocks hold at least \<open>inode.size\<close> bytes, the content returned
  has exactly \<open>inode.size\<close> bytes: the first \<open>inode.size\<close> bytes of the blocks'
  payloads, concatenated in the order direct, single-, double-, triple-indirect.
\<close>

theorem extract_inode_data_truncates:
  assumes "3 \<le> n"
    and "spec_resolveDataBlocks img inode = Inr bs"
    and "inode_size inode \<le> length (payload img bs)"
  shows "\<exists>d b1 b2 b3.
           extract_inode_data n img inode = Inr d \<and> length d = inode_size inode
           \<and> d = take (inode_size inode) (payload img bs)
           \<and> spec_resolvePointer img 1 (indirect1 inode) = Inr b1
           \<and> spec_resolvePointer img 2 (indirect2 inode) = Inr b2
           \<and> spec_resolvePointer img 3 (indirect3 inode) = Inr b3
           \<and> bs = takeWhile (\<lambda>b. b \<noteq> 0) (direct inode) @ b1 @ b2 @ b3"
proof -
  from assms(2) obtain b1 b2 b3 where
    "spec_resolvePointer img 1 (indirect1 inode) = Inr b1"
    "spec_resolvePointer img 2 (indirect2 inode) = Inr b2"
    "spec_resolvePointer img 3 (indirect3 inode) = Inr b3"
    "bs = takeWhile (\<lambda>b. b \<noteq> 0) (direct inode) @ b1 @ b2 @ b3"
    by (auto simp: spec_resolveDataBlocks_def live_def split: sum.splits)
  moreover have "extract_inode_data n img inode = Inr (take (inode_size inode) (payload img bs))"
    using assms(1,2) by (simp add: extract_inode_data_spec map_ok_def)
  ultimately show ?thesis
    using assms(3) by simp
qed

theorem extract_inode_data_truncates_witness:
  "(3 :: nat) \<le> 3
   \<and> spec_resolveDataBlocks example_image
         \<lparr>file_type = 0, inode_size = 600, direct = 5 # 7 # replicate 25 0,
          indirect1 = 0, indirect2 = 0, indirect3 = 0\<rparr> = Inr [5, 7]
   \<and> 600 \<le> length (payload example_image [5, 7])
   \<and> extract_inode_data 3 example_image
         \<lparr>file_type = 0, inode_size = 600, direct = 5 # 7 # replicate 25 0,
          indirect1 = 0, indirect2 = 0, indirect3 = 0\<rparr> =
       Inr (replicate 512 0xAA @ replicate 88 0xBB)"
proof -
  let ?ino = "\<lparr>file_type = 0, inode_size = 600, direct = 5 # 7 # replicate 25 0,
          indirect1 = 0, indirect2 = 0, indirect3 = 0\<rparr>"
  have n: "(3 :: nat) \<le> 3" by simp
  have r: "spec_resolveDataBlocks example_image ?ino = Inr [5, 7]"
    by (simp add: spec_resolveDataBlocks_def spec_resolvePointer_def live_def)
  have l: "inode_size ?ino \<le> length (payload example_image [5, 7])"
    by (simp add: example_payloads)
  from extract_inode_data_truncates [OF n r l]
  have "extract_inode_data 3 example_image ?ino = Inr (replicate 512 0xAA @ replicate 88 0xBB)"
    by (auto simp: example_payloads)
  with n r l show ?thesis by simp
qed

text \<open>
  C5, as the program has it. Decoding a 32-byte entry takes the bytes of the 28-byte
  name field before the first null byte, decodes them as UTF-8, and pairs the name with
  the little-endian integer of the last four bytes. An empty name is no failure: the
  entry decodes to the empty name (the only failure is a name that is not UTF-8).
\<close>

theorem decode_dir_entry_accepts_empty_name:
  assumes "length entry = 32"
  shows "decode_dir_entry entry =
           map_ok (\<lambda>name. (name, le_uint (drop 28 entry)))
                  (utf8_decode (takeWhile (\<lambda>b. b \<noteq> 0) (take 28 entry)))
     \<and> (hd entry = 0 \<longrightarrow> decode_dir_entry entry = Inr ([], le_uint (drop 28 entry)))"
proof -
  from assms obtain b rest where "entry = b # rest"
    by (cases entry) simp_all
  then have "hd entry = 0 \<Longrightarrow> takeWhile (\<lambda>b. b \<noteq> 0) (take 28 entry) = []"
    by simp
  then show ?thesis
    using decode_dir_entry_eq [OF assms] by (auto simp: map_ok_def)
qed

theorem decode_dir_entry_accepts_empty_name_witness:
  "length ((0 # 97 # replicate 26 0) @ [3, 0, 0, 0 :: byte]) = 32
   \<and> hd ((0 # 97 # replicate 26 0) @ [3, 0, 0, 0 :: byte]) = 0
   \<and> decode_dir_entry ((0 # 97 # replicate 26 0) @ [3, 0, 0, 0]) = Inr ([], 3)"
proof -
  have l: "length ((0 # 97 # replicate 26 0) @ [3, 0, 0, 0 :: byte]) = 32"
    by simp
  show ?thesis
    using decode_dir_entry_accepts_empty_name [OF l] by (simp add: map_ok_def)
qed

theorem empty_name_counterexample:
  "decode_dir_entry (replicate 28 0 @ [7, 0, 0, 0]) = Inr ([], 7)"
  by (simp add: decode_dir_entry_eq map_ok_def)



text \<open>
  C7. The scan of the bitmap lists the inode indices in strictly ascending order, and
  index \<open>8 * i + b\<close> is listed exactly when bit \<open>b\<close> (counted from the least significant)
  of byte \<open>i\<close> is set. When the image holds the record of every listed inode and the
  blocks of those that are no directory resolve (and the interpreter allows three more
  nested calls), the flat extraction makes the output directory if it is not there and
  then writes, in ascending order, the content of each listed inode that is no directory
  to the file \<open>inode<index>\<close> of the output directory, the index in decimal digits; it
  writes nothing for a directory and ends only where the host raises. On a host that
  accepts every call the run ends without an exception.
\<close>

theorem flat_extraction_outputs:
  "sorted_wrt (<) (inode_indices bm)
   \<and> set (inode_indices bm) = {i * 8 + b | i b. i < length bm \<and> b < 8 \<and> bit (bm ! i) b}
   \<and> ((\<exists>inode. read_inode img k = Inr inode) \<longleftrightarrow> 1024 + 128 * k + 128 \<le> length img)
   \<and> (3 \<le> n
        \<and> (\<forall>i \<in> set (inode_indices (image_read img BLOCK_SIZE BLOCK_SIZE)).
              read_inode img i = Inr (ino i)
              \<and> (file_type (ino i) \<noteq> 1 \<longrightarrow>
                   spec_resolveDataBlocks img (ino i) = Inr (blocks i)))
        \<longrightarrow>
          extract_all_files api n img out h =
            (case ensure_dir api h out of
               (Some e, h1) \<Rightarrow> (Some e, h1)
             | (None, h1) \<Rightarrow>
                 emit api h1
                   (map (\<lambda>i. (path_join out (ascii ''inode'' @ decimal i),
                               take (inode_size (ino i)) (payload img (blocks i))))
                        (filter (\<lambda>i. file_type (ino i) \<noteq> 1)
                           (inode_indices (image_read img BLOCK_SIZE BLOCK_SIZE)))))
          \<and> ((\<forall>s p. os_mkdir api s p \<noteq> None) \<and> (\<forall>s p c. fst (open_write api s p c))
               \<and> (\<forall>p. \<not> markup_error api p)
              \<longrightarrow> fst (extract_all_files api n img out h) = None))
   \<and> path_join out (ascii ''inode'' @ decimal k) =
       (if out = [] \<or> last out = 47 then out else out @ [47]) @ ascii ''inode'' @ decimal k
   \<and> decimal_value (decimal k) = k
   \<and> (\<forall>d \<in> set (decimal k). 48 \<le> d \<and> d \<le> 57)
   \<and> (hd (decimal k) = 48 \<longrightarrow> k = 0)"
proof (intro conjI)
  show "sorted_wrt (<) (inode_indices bm)"
    by (simp add: inode_indices_alt sorted_indices_from)
  show "set (inode_indices bm) = {i * 8 + b | i b. i < length bm \<and> b < 8 \<and> bit (bm ! i) b}"
    unfolding inode_indices_alt set_indices_from by simp
  show "(\<exists>inode. read_inode img k = Inr inode) \<longleftrightarrow> 1024 + 128 * k + 128 \<le> length img"
    by (rule read_inode_readable)
  show "3 \<le> n
        \<and> (\<forall>i \<in> set (inode_indices (image_read img BLOCK_SIZE BLOCK_SIZE)).
              read_inode img i = Inr (ino i)
              \<and> (file_type (ino i) \<noteq> 1 \<longrightarrow>
                   spec_resolveDataBlocks img (ino i) = Inr (blocks i)))
        \<longrightarrow>
          extract_all_files api n img out h =
            (case ensure_dir api h out of
               (Some e, h1) \<Rightarrow> (Some e, h1)
             | (None, h1) \<Rightarrow>
                 emit api h1
                   (map (\<lambda>i. (path_join out (ascii ''inode'' @ decimal i),
                               take (inode_size (ino i)) (payload img (blocks i))))
                        (filter (\<lambda>i. file_type (ino i) \<noteq> 1)
                           (inode_indices (image_read img BLOCK_SIZE BLOCK_SIZE)))))
          \<and> ((\<forall>s p. os_mkdir api s p \<noteq> None) \<and> (\<forall>s p c. fst (open_write api s p c))
               \<and> (\<forall>p. \<not> markup_error api p)
              \<longrightarrow> fst (extract_all_files api n img out h) = None)"
    using extract_all_files_outputs [of n img ino blocks api out h]
          extract_all_files_accepting [of n img ino blocks api out h]
    by blast
  show "path_join out (ascii ''inode'' @ decimal k) =
       (if out = [] \<or> last out = 47 then out else out @ [47]) @ ascii ''inode'' @ decimal k"
    by (rule inode_file_path)
  show "decimal_value (decimal k) = k"
    by (rule decimal_value_decimal)
  show "\<forall>d \<in> set (decimal k). 48 \<le> d \<and> d \<le> 57"
    using decimal_digits by blast
  show "hd (decimal k) = 48 \<longrightarrow> k = 0"
    using decimal_leading by blast
qed

theorem flat_extraction_outputs_witness:
  "inode_indices example_bitmap = [0, 3, 5]
   \<and> 1024 + 128 * 5 + 128 \<le> length example_image
   \<and> extract_all_files example_api 3 example_image [111, 117, 116] empty_host =
       (None, \<lparr>fs = \<lparr>dirs = [[111, 117, 116]],
                     files = [([111, 117, 116, 47, 105, 110, 111, 100, 101, 51],
                               replicate 512 0xAA @ replicate 88 0xBB),
                              ([111, 117, 116, 47, 105, 110, 111, 100, 101, 53],
                               replicate 512 0xAA)]\<rparr>,
               console = [MsgExtracted [111, 117, 116, 47, 105, 110, 111, 100, 101, 51],
                          MsgExtracted [111, 117, 116, 47, 105, 110, 111, 100, 101, 53]]\<rparr>)
   \<and> decimal 4095 = [52, 48, 57, 53]
   \<and> decimal_value [52, 48, 57, 53] = 4095"
proof -
  let ?out = "[111, 117, 116] :: str"
  let ?d0 = "\<lparr>file_type = 1, inode_size = 96, direct = 4 # replicate 26 0,
         indirect1 = 0, indirect2 = 0, indirect3 = 0\<rparr>"
  let ?f3 = "\<lparr>file_type = 0, inode_size = 600, direct = 5 # 7 # replicate 25 0,
         indirect1 = 0, indirect2 = 0, indirect3 = 0\<rparr>"
  let ?f5 = "\<lparr>file_type = 0, inode_size = 600, direct = 5 # replicate 26 0,
         indirect1 = 0, indirect2 = 0, indirect3 = 0\<rparr>"
  let ?ino = "\<lambda>i :: nat. if i = 0 then ?d0 else if i = 3 then ?f3 else ?f5"
  let ?blocks = "\<lambda>i :: nat. if i = 3 then [5, 7] else [5 :: nat]"
  have r3: "spec_resolveDataBlocks example_image ?f3 = Inr [5, 7]"
    and r5: "spec_resolveDataBlocks example_image ?f5 = Inr [5]"
    by (simp_all add: spec_resolveDataBlocks_def spec_resolvePointer_def live_def)
  have hyp: "3 \<le> (3 :: nat)
        \<and> (\<forall>i \<in> set (inode_indices (image_read example_image BLOCK_SIZE BLOCK_SIZE)).
              read_inode example_image i = Inr (?ino i)
              \<and> (file_type (?ino i) \<noteq> 1 \<longrightarrow>
                   spec_resolveDataBlocks example_image (?ino i) = Inr (?blocks i)))"
    by (simp add: example_bitmap_read example_bitmap_indices example_inode0_read
          example_inode3_read example_inode5_read r3 r5)
  have len: "1024 + 128 * 5 + 128 \<le> length example_image"
    using flat_extraction_outputs
            [where img = example_image and k = 5, THEN conjunct2, THEN conjunct2, THEN conjunct1]
          example_inode5_read
    by blast
  have "extract_all_files example_api 3 example_image ?out empty_host =
            (case ensure_dir example_api empty_host ?out of
               (Some e, h1) \<Rightarrow> (Some e, h1)
             | (None, h1) \<Rightarrow>
                 emit example_api h1
                   (map (\<lambda>i. (path_join ?out (ascii ''inode'' @ decimal i),
                               take (inode_size (?ino i)) (payload example_image (?blocks i))))
                        (filter (\<lambda>i. file_type (?ino i) \<noteq> 1)
                           (inode_indices (image_read example_image BLOCK_SIZE BLOCK_SIZE)))))"
    using flat_extraction_outputs
            [where img = example_image and n = 3 and ino = ?ino and blocks = ?blocks
               and api = example_api and out = ?out and h = empty_host,
             THEN conjunct2, THEN conjunct2, THEN conjunct2, THEN conjunct1, THEN mp, OF hyp]
    by (rule conjunct1)
  then have run: "extract_all_files example_api 3 example_image ?out empty_host =
       (None, \<lparr>fs = \<lparr>dirs = [?out],
                     files = [([111, 117, 116, 47, 105, 110, 111, 100, 101, 51],
                               replicate 512 0xAA @ replicate 88 0xBB),
                              ([111, 117, 116, 47, 105, 110, 111, 100, 101, 53],
                               replicate 512 0xAA)]\<rparr>,
               console = [MsgExtracted [111, 117, 116, 47, 105, 110, 111, 100, 101, 51],
                          MsgExtracted [111, 117, 116, 47, 105, 110, 111, 100, 101, 53]]\<rparr>)"
    by (simp add: example_bitmap_read example_bitmap_indices example_payloads
          path_join_def ascii_def decimal.simps example_host_defs)
  have d: "decimal 4095 = [52, 48, 57, 53]"
    by (simp add: decimal.simps)
  have "decimal_value (decimal 4095) = 4095"
    using flat_extraction_outputs [where k = 4095] by blast
  then have v: "decimal_value [52, 48, 57, 53] = 4095"
    by (simp only: d)
  show ?thesis
    using example_bitmap_indices len run d v by blast
qed

text \<open>
  C8. When the first four bytes of the image, read as a little-endian integer, differ
  from \<open>0x3B800001\<close>, the run ends before any extraction, in both modes: on an image of at
  least 512 bytes it prints the mismatch and returns, on a shorter one unpacking the
  superblock raises. The file system of the host is as it was: no directory is made and
  no file is written.
\<close>

theorem cli_bad_magic_writes_nothing:
  assumes "le_uint (take 4 img) \<noteq> MAGIC_NUMBER"
  shows "cli api n img output m h =
           (if length img < 512 then (Some StructError, h)
            else (None, print h (MsgMagicMismatch MAGIC_NUMBER (le_uint (take 4 img)))))
     \<and> fs (snd (cli api n img output m h)) = fs h"
proof (cases "length img < 512")
  case True
  then show ?thesis
    by (simp add: cli_def unpack_super_block_def image_read_def BLOCK_SIZE_def)
next
  case False
  then obtain a b c d rest where img: "img = a # b # c # d # rest"
    by (cases img rule: uint32s.cases) simp_all
  have "unpack_super_block (image_read img 0 BLOCK_SIZE) = Inr (uint32s (take 24 img))"
    using False by (simp add: unpack_super_block_def image_read_def BLOCK_SIZE_def)
  moreover have "uint32s (take 24 img) ! 0 = le_uint (take 4 img)"
    by (simp add: img)
  ultimately show ?thesis
    using assms False by (simp add: cli_def print_def)
qed

theorem cli_bad_magic_writes_nothing_witness:
  "le_uint (take 4 bad_magic_image) \<noteq> MAGIC_NUMBER
   \<and> cli example_api 5 bad_magic_image [111, 117, 116] Restore empty_host =
       (None, \<lparr>fs = \<lparr>dirs = [], files = []\<rparr>, console = [MsgMagicMismatch 0x3B800001 0]\<rparr>)
   \<and> cli example_api 5 bad_magic_image [111, 117, 116] Extract empty_host =
       (None, \<lparr>fs = \<lparr>dirs = [], files = []\<rparr>, console = [MsgMagicMismatch 0x3B800001 0]\<rparr>)"
proof -
  have t: "take 4 bad_magic_image = [0, 0, 0, 0]"
    by (simp add: bad_magic_image_def numeral_eq_Suc)
  have m: "le_uint (take 4 bad_magic_image) \<noteq> MAGIC_NUMBER"
    by (simp add: t MAGIC_NUMBER_def)
  have l: "\<not> length bad_magic_image < 512"
    by (simp add: bad_magic_image_def)
  show ?thesis
    using cli_bad_magic_writes_nothing
            [OF m, of example_api 5 "[111, 117, 116]" Restore empty_host]
          cli_bad_magic_writes_nothing
            [OF m, of example_api 5 "[111, 117, 116]" Extract empty_host]
    by (simp add: l t MAGIC_NUMBER_def print_def empty_host_def)
qed

text \<open>
  C9, as the program has it. Reading block \<open>i\<close> returns the bytes of the image from
  offset \<open>512 * i\<close> on, at most 512 of them: 512 exactly when the image holds the whole
  block, fewer on a truncated image, with no failure and no padding. A short data block
  is appended as it is; a short indirect block makes \<^verbatim>\<open>struct.unpack\<close> raise.
\<close>

theorem block_read_returns_what_is_there:
  "length (image_read img (i * BLOCK_SIZE) BLOCK_SIZE) = min 512 (length img - i * 512)
   \<and> (length (image_read img (i * BLOCK_SIZE) BLOCK_SIZE) = 512
        \<longleftrightarrow> (i + 1) * 512 \<le> length img)
   \<and> (\<forall>k < length (image_read img (i * BLOCK_SIZE) BLOCK_SIZE).
         image_read img (i * BLOCK_SIZE) BLOCK_SIZE ! k = img ! (i * 512 + k))
   \<and> (i \<noteq> 0 \<longrightarrow>
        direct_loop img [i] data = data @ image_read img (i * BLOCK_SIZE) BLOCK_SIZE)
   \<and> (unpack_indirect_block (image_read img (i * BLOCK_SIZE) BLOCK_SIZE) = Inl StructError
        \<longleftrightarrow> length img < (i + 1) * 512)"
proof -
  have len: "length (image_read img (i * BLOCK_SIZE) BLOCK_SIZE) = min 512 (length img - i * 512)"
    by (simp add: image_read_def BLOCK_SIZE_def)
  have full: "(min 512 (length img - i * 512) = 512) = ((i + 1) * 512 \<le> length img)"
    by auto
  have nth: "\<forall>k < length (image_read img (i * BLOCK_SIZE) BLOCK_SIZE).
         image_read img (i * BLOCK_SIZE) BLOCK_SIZE ! k = img ! (i * 512 + k)"
  proof (intro allI impI)
    fix k
    assume "k < length (image_read img (i * BLOCK_SIZE) BLOCK_SIZE)"
    then have "k < 512" "i * 512 + k < length img"
      by (auto simp: image_read_def BLOCK_SIZE_def)
    then show "image_read img (i * BLOCK_SIZE) BLOCK_SIZE ! k = img ! (i * 512 + k)"
      by (simp add: image_read_def BLOCK_SIZE_def)
  qed
  have unp: "(unpack_indirect_block (image_read img (i * BLOCK_SIZE) BLOCK_SIZE) = Inl StructError)
        = (length img < (i + 1) * 512)"
    unfolding unpack_indirect_block_def len by auto
  show ?thesis
    using len full nth unp by simp
qed

theorem block_read_returns_what_is_there_witness:
  "length (image_read truncated_image (1 * BLOCK_SIZE) BLOCK_SIZE) = 3
   \<and> \<not> (1 + 1) * 512 \<le> length truncated_image
   \<and> image_read truncated_image (1 * BLOCK_SIZE) BLOCK_SIZE ! 2 = truncated_image ! 514
   \<and> (1 :: nat) \<noteq> 0
   \<and> direct_loop truncated_image [1] [] = image_read truncated_image (1 * BLOCK_SIZE) BLOCK_SIZE
   \<and> unpack_indirect_block (image_read truncated_image (1 * BLOCK_SIZE) BLOCK_SIZE)
       = Inl StructError"
proof -
  have l: "length truncated_image = 515"
    by (simp add: truncated_image_def)
  show ?thesis
    using block_read_returns_what_is_there [of truncated_image 1 "[]"]
    by (simp add: l del: direct_loop.simps)
qed

theorem short_read_counterexample:
  "image_read truncated_image (1 * BLOCK_SIZE) BLOCK_SIZE = [1, 2, 3]
   \<and> extract_inode_data 3 truncated_image
        \<lparr>file_type = 0, inode_size = 512, direct = [1],
         indirect1 = 0, indirect2 = 0, indirect3 = 0\<rparr> = Inr [1, 2, 3]"
  by (simp add: extract_inode_data_direct_only live_def payload_def block_payload_def
                image_read_def BLOCK_SIZE_def truncated_image_def)

text \<open>
  C10, as the program has it. When the 28-byte name field holds no null byte, the whole
  field is the name, with no truncation; decoding succeeds when these 28 bytes are
  well-formed UTF-8 (as 28 ASCII bytes are) and raises \<^verbatim>\<open>UnicodeDecodeError\<close> when they
  are not.
\<close>

theorem decode_dir_entry_without_null:
  assumes "length entry = 32" and "0 \<notin> set (take 28 entry)"
  shows "decode_dir_entry entry =
           map_ok (\<lambda>name. (name, le_uint (drop 28 entry))) (utf8_decode (take 28 entry))
     \<and> ((\<forall>b \<in> set (take 28 entry). unat b < 128) \<longrightarrow>
          decode_dir_entry entry = Inr (map unat (take 28 entry), le_uint (drop 28 entry)))"
proof -
  have tw: "takeWhile (\<lambda>b. b \<noteq> 0) (take 28 entry) = take 28 entry"
    using assms(2) by (intro takeWhile_eq_all_conv [THEN iffD2]) auto
  have d: "decode_dir_entry entry =
           map_ok (\<lambda>name. (name, le_uint (drop 28 entry))) (utf8_decode (take 28 entry))"
    using decode_dir_entry_eq [OF assms(1)] unfolding tw .
  have "decode_dir_entry entry = Inr (map unat (take 28 entry), le_uint (drop 28 entry))"
    if "\<forall>b \<in> set (take 28 entry). unat b < 128"
    unfolding d utf8_decode_ascii [OF that] by (simp add: map_ok_def)
  with d show ?thesis by blast
qed

theorem decode_dir_entry_without_null_witness:
  "length (replicate 28 0x61 @ [7, 0, 0, 0 :: byte]) = 32
   \<and> 0 \<notin> set (take 28 (replicate 28 0x61 @ [7, 0, 0, 0 :: byte]))
   \<and> unat (0x61 :: byte) < 128
   \<and> decode_dir_entry (replicate 28 0x61 @ [7, 0, 0, 0]) = Inr (replicate 28 97, 7)"
proof -
  have l: "length (replicate 28 0x61 @ [7, 0, 0, 0 :: byte]) = 32"
    by simp
  have z: "0 \<notin> set (take 28 (replicate 28 0x61 @ [7, 0, 0, 0 :: byte]))"
    by simp
  have a: "\<forall>b \<in> set (take 28 (replicate 28 0x61 @ [7, 0, 0, 0 :: byte])). unat b < 128"
    by simp
  have "decode_dir_entry (replicate 28 0x61 @ [7, 0, 0, 0]) =
          Inr (map unat (take 28 (replicate 28 0x61 @ [7, 0, 0, 0 :: byte])),
               le_uint (drop 28 (replicate 28 0x61 @ [7, 0, 0, 0 :: byte])))"
    using decode_dir_entry_without_null [OF l z, THEN conjunct2] a by (rule mp)
  then have "decode_dir_entry (replicate 28 0x61 @ [7, 0, 0, 0]) = Inr (replicate 28 97, 7)"
    by simp
  moreover have "unat (0x61 :: byte) < 128"
    by simp
  ultimately show ?thesis
    using l z by blast
qed

theorem name_without_null_counterexample:
  "0 \<notin> set (take 28 (replicate 28 0xFF @ [7, 0, 0, 0 :: byte]))
   \<and> decode_dir_entry (replicate 28 0xFF @ [7, 0, 0, 0]) = Inl UnicodeDecodeError"
proof -
  have "utf8_decode (replicate 28 0xFF) = Inl UnicodeDecodeError"
    using utf8_decode_ff [of 27] by simp
  then show ?thesis
    by (simp add: decode_dir_entry_eq map_ok_def)
qed

end
